theory Spec2Isabelle
  imports Main "HOL-Library.Word"
begin

section \<open>Formatting verbs of \<open>fmt.Sprintf\<close> used by the driver\<close>

text \<open>
  Go's \<open>int\<close> is a 64-bit two's complement integer on every platform the driver is built
  for. Values are kept as \<open>int\<close>; \<open>go_int\<close> is the wrap-around that a Go multiplication
  applies to its mathematical result.
\<close>

definition go_int :: "int \<Rightarrow> int" where
  "go_int x = (x + 2 ^ 63) mod 2 ^ 64 - 2 ^ 63"

text \<open>The digit alphabets of package fmt.\<close>

definition ldigits :: string where
  "ldigits = ''0123456789abcdef''"

definition udigits :: string where
  "udigits = ''0123456789ABCDEF''"

text \<open>The decimal digits of a natural number, most significant first (\<open>%d\<close>).\<close>

function decimal :: "nat \<Rightarrow> string" where
  "decimal n = (if n < 10 then [ldigits ! n] else decimal (n div 10) @ [ldigits ! (n mod 10)])"
  by pat_completeness auto
termination
  by (relation "measure (\<lambda>n. n)") auto

declare decimal.simps [simp del]

text \<open>\<open>strconv.Itoa\<close> and the verb \<open>%d\<close> on a signed integer.\<close>

definition Itoa :: "int \<Rightarrow> string" where
  "Itoa i = (if i < 0 then CHR ''-'' # decimal (nat (- i)) else decimal (nat i))"

text \<open>Hexadecimal digits, most significant first; \<open>up\<close> selects \<open>%X\<close> over \<open>%x\<close>.\<close>

definition hex_digit :: "bool \<Rightarrow> nat \<Rightarrow> char" where
  "hex_digit up d = (if up then udigits ! d else ldigits ! d)"

function hexadecimal :: "bool \<Rightarrow> nat \<Rightarrow> string" where
  "hexadecimal up n = (if n < 16 then [hex_digit up n] else hexadecimal up (n div 16) @ [hex_digit up (n mod 16)])"
  by pat_completeness auto
termination
  by (relation "measure (\<lambda>(up, n). n)") auto

declare hexadecimal.simps [simp del]

text \<open>Zero padding to a minimum width (\<open>%02x\<close>, \<open>%04X\<close>, \<open>%016x\<close>): longer output is kept.\<close>

definition zero_pad :: "nat \<Rightarrow> string \<Rightarrow> string" where
  "zero_pad w s = replicate (w - length s) (CHR ''0'') @ s"

section \<open>Errors\<close>

text \<open>
  A Go \<open>error\<close> is kept as the message its \<open>Error()\<close> method returns. \<open>wrap\<close> is
  \<open>fmt.Errorf("<prefix>: %w", err)\<close>, whose message is the prefix, a colon and a space, and
  the message of the wrapped error.
\<close>

datatype error = Error string

fun message :: "error \<Rightarrow> string" where
  "message (Error m) = m"

definition wrap :: "string \<Rightarrow> error \<Rightarrow> error" where
  "wrap prefix err = Error (prefix @ '': '' @ message err)"

section \<open>Package ibverbs: port attributes\<close>

record PortInfo =
  PortNum :: int
  State :: int
  ActiveSpeed :: int
  ActiveWidth :: int
  LID :: "16 word"
  ActiveMTU :: int
  GID :: "8 word list"
  LinkLayer :: string

text \<open>\<open>PortState.String\<close>.\<close>

definition PortState_String :: "int \<Rightarrow> string" where
  "PortState_String s =
     (if s = 1 then ''Down''
      else if s = 2 then ''Init''
      else if s = 3 then ''Armed''
      else if s = 4 then ''Active''
      else ''Unknown'')"

text \<open>
  \<open>PortInfo.EffectiveSpeed\<close>: the switch on the width code leaves the multiplier at 1 for
  a code it does not list; the switch on the speed code returns from its default branch.
  Both products are Go \<open>int\<close> multiplications.
\<close>

definition widthMultiplier :: "int \<Rightarrow> int" where
  "widthMultiplier w =
     (if w = 1 then 1
      else if w = 2 then 4
      else if w = 4 then 8
      else if w = 8 then 12
      else 1)"

definition baseSpeed :: "int \<Rightarrow> int option" where
  "baseSpeed s =
     (if s = 1 then Some 2
      else if s = 2 then Some 5
      else if s = 4 then Some 10
      else if s = 8 then Some 10
      else if s = 16 then Some 14
      else if s = 32 then Some 25
      else if s = 64 then Some 50
      else if s = 128 then Some 100
      else if s = 256 then Some 200
      else None)"

definition EffectiveSpeed :: "PortInfo \<Rightarrow> string" where
  "EffectiveSpeed p =
     (case baseSpeed (ActiveSpeed p) of
        None \<Rightarrow> Itoa (go_int (ActiveSpeed p * widthMultiplier (ActiveWidth p))) @ ''Gb/s''
      | Some b \<Rightarrow> Itoa (go_int (b * widthMultiplier (ActiveWidth p))) @ ''Gb/s'')"

text \<open>
  The tables as the specification words them: width code to lane multiplier, speed code
  to base rate in Gb/s.
\<close>

definition spec_lane_multipliers :: "(int \<times> int) list" where
  "spec_lane_multipliers = [(1, 1), (2, 4), (4, 8), (8, 12)]"

definition spec_base_rates :: "(int \<times> int) list" where
  "spec_base_rates =
     [(1, 2), (2, 5), (4, 10), (8, 10), (16, 14), (32, 25), (64, 50), (128, 100), (256, 200)]"

definition spec_multiplier :: "int \<Rightarrow> int" where
  "spec_multiplier w = (case map_of spec_lane_multipliers w of Some m \<Rightarrow> m | None \<Rightarrow> 1)"

section \<open>Package ibverbs: querying devices through libibverbs\<close>

text \<open>
  What the C library answers for one entry of the device list. \<open>query_device\<close> and
  \<open>query_port\<close> give the return code when it is not 0; \<open>query_gid\<close> is the GID at index 0,
  \<open>None\<close> when the call fails. Port numbers cross the boundary as \<open>uint8_t\<close>.
\<close>

record ibv_port_attr =
  state :: int
  active_mtu :: int
  active_speed :: int
  active_width :: int
  lid :: "16 word"
  link_layer :: "8 word"

record ibv_device_attr =
  fw_ver :: string
  phys_port_cnt :: "8 word"
  vendor_id :: "32 word"
  vendor_part_id :: "32 word"

record ibv_device =
  device_name :: string
  device_guid :: "64 word"
  node_type :: int
  transport_type :: int
  open_device :: bool
  query_device :: "int + ibv_device_attr"
  query_port :: "8 word \<Rightarrow> int + ibv_port_attr"
  query_gid :: "8 word \<Rightarrow> 8 word list option"

definition mtuEnumToBytes :: "int \<Rightarrow> int" where
  "mtuEnumToBytes mtuEnum =
     (if mtuEnum = 1 then 256
      else if mtuEnum = 2 then 512
      else if mtuEnum = 3 then 1024
      else if mtuEnum = 4 then 2048
      else if mtuEnum = 5 then 4096
      else 0)"

text \<open>
  \<open>queryPort\<close>. \<open>IBV_LINK_LAYER_INFINIBAND\<close> is 1 and \<open>IBV_LINK_LAYER_ETHERNET\<close> is 2. The
  GID array starts zeroed and receives the 16 bytes of the union when the query succeeds.
\<close>

definition queryPort :: "ibv_device \<Rightarrow> int \<Rightarrow> error + PortInfo" where
  "queryPort dev portNum =
     (case query_port dev (of_int portNum) of
        Inl rc \<Rightarrow> Inl (Error (''ibv_query_port failed for port '' @ Itoa portNum @ '': '' @ Itoa rc))
      | Inr attr \<Rightarrow>
          Inr \<lparr>PortNum = portNum,
               State = state attr,
               ActiveSpeed = active_speed attr,
               ActiveWidth = active_width attr,
               LID = lid attr,
               ActiveMTU = mtuEnumToBytes (active_mtu attr),
               GID = (case query_gid dev (of_int portNum) of
                        None \<Rightarrow> replicate 16 0
                      | Some raw \<Rightarrow> take 16 (raw @ replicate 16 0)),
               LinkLayer = (if link_layer attr = 1 then ''InfiniBand''
                            else if link_layer attr = 2 then ''Ethernet''
                            else ''Unknown'')\<rparr>)"

record DeviceInfo =
  Name :: string
  NodeGUID :: "64 word"
  FirmwareVersion :: string
  NumPorts :: int
  Ports :: "PortInfo list"
  NodeType :: int
  TransportType :: int
  VendorID :: "32 word"
  DeviceID :: "32 word"

definition NodeGUIDString :: "DeviceInfo \<Rightarrow> string" where
  "NodeGUIDString d = zero_pad 16 (hexadecimal False (unat (NodeGUID d)))"

text \<open>
  \<open>queryDevice\<close>: the loop over the ports runs from 1 to the port count and leaves out a
  port whose query fails.
\<close>

definition queryDevice :: "ibv_device \<Rightarrow> error + DeviceInfo" where
  "queryDevice dev =
     (if \<not> open_device dev then Inl (Error (''ibv_open_device failed for '' @ device_name dev))
      else
        (case query_device dev of
           Inl rc \<Rightarrow>
             Inl (Error (''ibv_query_device failed for '' @ device_name dev @ '': '' @ Itoa rc))
         | Inr deviceAttr \<Rightarrow>
             Inr \<lparr>Name = device_name dev,
                  NodeGUID = device_guid dev,
                  FirmwareVersion = fw_ver deviceAttr,
                  NumPorts = uint (phys_port_cnt deviceAttr),
                  Ports = List.map_filter
                            (\<lambda>port. case queryPort dev port of Inl err \<Rightarrow> None | Inr portInfo \<Rightarrow> Some portInfo)
                            [1..uint (phys_port_cnt deviceAttr)],
                  NodeType = node_type dev,
                  TransportType = transport_type dev,
                  VendorID = vendor_id deviceAttr,
                  DeviceID = vendor_part_id deviceAttr\<rparr>))"

section \<open>Package sysfs and the host\<close>

record IBDeviceInfo =
  Name :: string
  PCIAddress :: string
  NUMANode :: int
  IsPF :: bool
  IsVF :: bool
  SRIOVTotalVFs :: int
  SRIOVNumVFs :: int
  ParentPF :: string
  NetDevices :: "string list"
  NodeGUID :: string
  PortGUIDs :: "int \<rightharpoonup> string"

text \<open>
  The host as the driver sees it. The files under \<open>/sys/bus/pci/devices/<addr>\<close> are read
  through \<open>readIntFileErr\<close> (\<open>Inl\<close> when the read or the parse fails). \<open>writes\<close> records
  every call of \<open>SetSRIOVNumVFs\<close> in order, accepted or not; \<open>write_outcome\<close> is the kernel's
  answer to a write, which may depend on the writes before it. \<open>pf_dir\<close> is the directory
  listing of a PF at a clock value (milliseconds): entry names with the base name their
  symlink resolves to, \<open>None\<close> when \<open>EvalSymlinks\<close> fails. \<open>infiniband_class\<close> is the listing
  of \<open>/sys/class/infiniband\<close> (\<open>Inr None\<close> when the directory does not exist) and
  \<open>device_info\<close> what the per-device reads of \<open>GetIBDeviceInfo\<close> yield; both may change
  with the writes performed, and so may \<open>ibv_get_device_list\<close>, the device list of
  libibverbs (\<open>None\<close> for a null list, a \<open>None\<close> entry for a null pointer in it).
  \<open>commands\<close> records every command run through \<open>exec.Command\<close> as its argument vector,
  in order; \<open>exec_outcome\<close> is the combined output and the error of a command, given the
  commands run before it.
\<close>

type_synonym write_log = "(string \<times> int) list"

record host =
  sriov_totalvfs :: "string \<Rightarrow> error + int"
  sriov_numvfs :: "string \<Rightarrow> error + int"
  write_outcome :: "write_log \<Rightarrow> string \<Rightarrow> int \<Rightarrow> error option"
  pf_dir :: "string \<Rightarrow> nat \<Rightarrow> error + (string \<times> string option) list"
  infiniband_class :: "write_log \<Rightarrow> error + string list option"
  device_info :: "write_log \<Rightarrow> string \<Rightarrow> IBDeviceInfo"
  ibv_get_device_list :: "write_log \<Rightarrow> ibv_device option list option"
  exec_outcome :: "string list list \<Rightarrow> string list \<Rightarrow> string \<times> error option"
  clock :: nat
  writes :: write_log
  commands :: "string list list"

text \<open>\<open>time.Sleep\<close> of a number of milliseconds.\<close>

definition Sleep :: "nat \<Rightarrow> host \<Rightarrow> host" where
  "Sleep d h = h\<lparr>clock := clock h + d\<rparr>"

text \<open>
  \<open>GetIBDeviceInfo\<close> never returns an error: every read it makes has a fallback. It sets
  the name it was asked for.
\<close>

definition GetIBDeviceInfo :: "host \<Rightarrow> string \<Rightarrow> error + IBDeviceInfo" where
  "GetIBDeviceInfo h devName = Inr ((device_info h (writes h) devName)\<lparr>IBDeviceInfo.Name := devName\<rparr>)"

definition ListIBDevices :: "host \<Rightarrow> error + IBDeviceInfo list" where
  "ListIBDevices h =
     (case infiniband_class h (writes h) of
        Inl err \<Rightarrow> Inl (wrap ''read /sys/class/infiniband'' err)
      | Inr None \<Rightarrow> Inr []
      | Inr (Some entries) \<Rightarrow>
          Inr (List.map_filter
                 (\<lambda>devName. case GetIBDeviceInfo h devName of Inl err \<Rightarrow> None | Inr info \<Rightarrow> Some info)
                 entries))"

definition GetSRIOVTotalVFs :: "host \<Rightarrow> string \<Rightarrow> error + int" where
  "GetSRIOVTotalVFs h pciAddr = sriov_totalvfs h pciAddr"

definition GetSRIOVNumVFs :: "host \<Rightarrow> string \<Rightarrow> error + int" where
  "GetSRIOVNumVFs h pciAddr = sriov_numvfs h pciAddr"

text \<open>
  \<open>SetSRIOVNumVFs\<close>: the write is logged; when the kernel accepts it, the file reads back
  the count written.
\<close>

definition SetSRIOVNumVFs :: "string \<Rightarrow> int \<Rightarrow> host \<Rightarrow> error option \<times> host" where
  "SetSRIOVNumVFs pciAddr count h =
     (let h' = h\<lparr>writes := writes h @ [(pciAddr, count)]\<rparr> in
      case write_outcome h (writes h) pciAddr count of
        Some err \<Rightarrow> (Some err, h')
      | None \<Rightarrow> (None, h'\<lparr>sriov_numvfs := (sriov_numvfs h)(pciAddr := Inr count)\<rparr>))"

text \<open>\<open>strings.HasPrefix\<close>.\<close>

definition HasPrefix :: "string \<Rightarrow> string \<Rightarrow> bool" where
  "HasPrefix s pre = (take (length pre) s = pre)"

definition ListVFs :: "host \<Rightarrow> string \<Rightarrow> error + string list" where
  "ListVFs h pfPCIAddr =
     (case pf_dir h pfPCIAddr (clock h) of
        Inl err \<Rightarrow> Inl (wrap (''read /sys/bus/pci/devices/'' @ pfPCIAddr) err)
      | Inr entries \<Rightarrow>
          Inr (List.map_filter
                 (\<lambda>(name, vfPath). if \<not> HasPrefix name ''virtfn'' then None else vfPath)
                 entries))"

section \<open>Package ibverbs: listing devices\<close>

text \<open>
  \<open>ListDevices\<close>: a null entry of the list and a device whose query fails are left out.
\<close>

definition ListDevices :: "host \<Rightarrow> error + DeviceInfo list" where
  "ListDevices h =
     (case ibv_get_device_list h (writes h) of
        None \<Rightarrow> Inl (Error ''ibv_get_device_list failed'')
      | Some devList \<Rightarrow>
          if length devList = 0 then Inr []
          else Inr (List.map_filter
                      (\<lambda>dev. case dev of
                          None \<Rightarrow> None
                        | Some d \<Rightarrow> (case queryDevice d of Inl err \<Rightarrow> None | Inr devInfo \<Rightarrow> Some devInfo))
                      devList))"

section \<open>Package sriov\<close>

definition vfSettleTimeout :: nat where
  "vfSettleTimeout = 30 * 1000"

definition vfPollInterval :: nat where
  "vfPollInterval = 500"

record PFInfo =
  PCIAddress :: string
  IBDevName :: string
  TotalVFs :: int
  CurrentVFs :: int

definition DiscoverSRIOVPFs :: "host \<Rightarrow> error + PFInfo list" where
  "DiscoverSRIOVPFs h =
     (case ListIBDevices h of
        Inl err \<Rightarrow> Inl (wrap ''list IB devices'' err)
      | Inr ibDevices \<Rightarrow>
          Inr (List.map_filter
                 (\<lambda>dev. if \<not> IsPF dev \<or> SRIOVTotalVFs dev = 0 then None
                    else Some \<lparr>PFInfo.PCIAddress = IBDeviceInfo.PCIAddress dev, IBDevName = IBDeviceInfo.Name dev,
                               TotalVFs = SRIOVTotalVFs dev, CurrentVFs = SRIOVNumVFs dev\<rparr>)
                 ibDevices))"

text \<open>
  \<open>waitForVFs\<close>: the loop runs while the clock is before the deadline; every round lists the
  VFs and, unless the listing succeeded with enough of them (\<open>enough_VFs\<close>), sleeps for the
  poll interval.
\<close>

definition enough_VFs :: "error + string list \<Rightarrow> int \<Rightarrow> bool" where
  "enough_VFs listed expected = (case listed of Inl err \<Rightarrow> False | Inr vfs \<Rightarrow> int (length vfs) \<ge> expected)"

function waitForVFs_loop :: "string \<Rightarrow> int \<Rightarrow> nat \<Rightarrow> host \<Rightarrow> error option \<times> host" where
  "waitForVFs_loop pfPCIAddr expected deadline h =
     (if clock h < deadline then
        (if enough_VFs (ListVFs h pfPCIAddr) expected then (None, h)
         else waitForVFs_loop pfPCIAddr expected deadline (Sleep vfPollInterval h))
      else (Some (Error (''timed out waiting for '' @ Itoa expected @ '' VFs on PF '' @ pfPCIAddr)), h))"
  by pat_completeness auto
termination
  by (relation "measure (\<lambda>(pfPCIAddr, expected, deadline, h). deadline - clock h)")
     (auto simp: Sleep_def vfPollInterval_def)

declare waitForVFs_loop.simps [simp del]

definition waitForVFs :: "string \<Rightarrow> int \<Rightarrow> host \<Rightarrow> error option \<times> host" where
  "waitForVFs pfPCIAddr expected h = waitForVFs_loop pfPCIAddr expected (clock h + vfSettleTimeout) h"

text \<open>The reset step of \<open>ProvisionVFs\<close>: write 0 and pause for a second when VFs exist.\<close>

definition resetVFs :: "string \<Rightarrow> int \<Rightarrow> host \<Rightarrow> error option \<times> host" where
  "resetVFs pfPCIAddr currentVFs h =
     (if currentVFs > 0 then
        (case SetSRIOVNumVFs pfPCIAddr 0 h of
           (Some err, h') \<Rightarrow> (Some (wrap (''reset sriov_numvfs to 0 for '' @ pfPCIAddr) err), h')
         | (None, h') \<Rightarrow> (None, Sleep 1000 h'))
      else (None, h))"

definition ProvisionVFs :: "string \<Rightarrow> int \<Rightarrow> host \<Rightarrow> error option \<times> host" where
  "ProvisionVFs pfPCIAddr desired h =
     (case GetSRIOVTotalVFs h pfPCIAddr of
        Inl err \<Rightarrow> (Some (wrap (''get sriov_totalvfs for '' @ pfPCIAddr) err), h)
      | Inr totalVFs \<Rightarrow>
          if desired > totalVFs then
            (Some (Error (''requested '' @ Itoa desired @ '' VFs exceeds maximum '' @ Itoa totalVFs
                          @ '' for PF '' @ pfPCIAddr)), h)
          else
            (case GetSRIOVNumVFs h pfPCIAddr of
               Inl err \<Rightarrow> (Some (wrap (''get sriov_numvfs for '' @ pfPCIAddr) err), h)
             | Inr currentVFs \<Rightarrow>
                 if currentVFs = desired then (None, h)
                 else
                   (case resetVFs pfPCIAddr currentVFs h of
                      (Some err, h1) \<Rightarrow> (Some err, h1)
                    | (None, h1) \<Rightarrow>
                        (case SetSRIOVNumVFs pfPCIAddr desired h1 of
                           (Some err, h2) \<Rightarrow>
                             (Some (wrap (''set sriov_numvfs to '' @ Itoa desired @ '' for '' @ pfPCIAddr) err), h2)
                         | (None, h2) \<Rightarrow>
                             (case waitForVFs pfPCIAddr desired h2 of
                                (Some err, h3) \<Rightarrow> (Some (wrap (''VFs did not appear for '' @ pfPCIAddr) err), h3)
                              | (None, h3) \<Rightarrow> (None, h3))))))"

definition DestroyVFs :: "string \<Rightarrow> host \<Rightarrow> error option \<times> host" where
  "DestroyVFs pfPCIAddr h = SetSRIOVNumVFs pfPCIAddr 0 h"

section \<open>Package v1alpha1: the opaque device configuration\<close>

record IbConfig =
  Pkey :: "16 word option"
  TrafficClass :: "8 word option"
  MTU :: "int option"

definition DefaultIbConfig :: IbConfig where
  "DefaultIbConfig = \<lparr>Pkey = None, TrafficClass = None, MTU = None\<rparr>"

text \<open>\<open>IbMTU.Validate\<close>.\<close>

definition IbMTU_Validate :: "int \<Rightarrow> error option" where
  "IbMTU_Validate m =
     (if m = 256 \<or> m = 512 \<or> m = 1024 \<or> m = 2048 \<or> m = 4096 then None
      else Some (Error (''invalid IB MTU value: '' @ Itoa m @ '', must be one of 256, 512, 1024, 2048, 4096'')))"

text \<open>\<open>IbConfig.Normalize\<close>: the receiver may be a nil pointer.\<close>

definition Normalize :: "IbConfig option \<Rightarrow> error option" where
  "Normalize c = (case c of None \<Rightarrow> Some (Error (''config is '' @ [CHR 0x27] @ ''nil'' @ [CHR 0x27])) | Some config \<Rightarrow> None)"

text \<open>
  Modelled from the spec: \<open>IbConfig.Validate\<close>, whose file is not among the sources. The
  specification gives the partition key the range 1 to 0xFFFF, the traffic class the range
  0 to 255 (all of \<open>uint8\<close>) and the MTU the enumerated set that \<open>IbMTU.Validate\<close> checks;
  the package's tests reject the key 0 and an MTU outside the set and accept every other
  configuration. The wording of the first message follows the admission tests.
\<close>

definition Validate :: "IbConfig \<Rightarrow> error option" where
  "Validate config =
     (if Pkey config = Some 0 then
        Some (Error ''invalid IbConfig: pkey must be in range 0x0001-0xFFFF, got 0x0000'')
      else (case MTU config of
              None \<Rightarrow> None
            | Some m \<Rightarrow> (case IbMTU_Validate m of
                           None \<Rightarrow> None
                         | Some err \<Rightarrow> Some (wrap ''invalid IbConfig'' err))))"

section \<open>Package ib: the InfiniBand profile\<close>

record DeviceEntry =
  DeviceName :: string
  IBDevName :: string
  PortNum :: int
  Type :: string
  LinkSpeed :: string
  PortState :: string
  FirmwareVersion :: string
  NodeGUID :: string
  PortGUID :: string
  NUMANode :: int
  PCIAddress :: string
  ParentDevice :: string
  NetDevices :: "string list"

record Profile =
  nodeName :: string
  numVFs :: int
  devices :: "DeviceEntry list"

definition NewProfile :: "string \<Rightarrow> int \<Rightarrow> Profile" where
  "NewProfile node n = \<lparr>nodeName = node, numVFs = n, devices = []\<rparr>"

text \<open>\<open>strings.Join\<close>.\<close>

fun Join :: "string list \<Rightarrow> string \<Rightarrow> string" where
  "Join [] sep = []"
| "Join [x] sep = x"
| "Join (x # y # ys) sep = x @ sep @ Join (y # ys) sep"

text \<open>\<open>formatGID\<close>: the verb \<open>%02x\<close> on each byte, two bytes to a group.\<close>

definition formatGID :: "8 word list \<Rightarrow> string" where
  "formatGID gid =
     (if length gid \<noteq> 16 then []
      else Join (map (\<lambda>i. zero_pad 2 (hexadecimal False (unat (gid ! (i * 2))))
                          @ zero_pad 2 (hexadecimal False (unat (gid ! (i * 2 + 1)))))
                     [0..<8]) '':'')"

text \<open>
  The two indexes of step 3 of \<open>EnumerateDevices\<close>: a later record of the same key
  replaces an earlier one, and a record without a PCI address is not indexed by address.
\<close>

definition sysfsMap :: "IBDeviceInfo list \<Rightarrow> (string \<rightharpoonup> IBDeviceInfo)" where
  "sysfsMap sysfsDevices = foldl (\<lambda>m si. m(IBDeviceInfo.Name si \<mapsto> si)) Map.empty sysfsDevices"

definition pciToIBDev :: "IBDeviceInfo list \<Rightarrow> (string \<rightharpoonup> string)" where
  "pciToIBDev sysfsDevices =
     foldl (\<lambda>m si. if IBDeviceInfo.PCIAddress si \<noteq> [] then m(IBDeviceInfo.PCIAddress si \<mapsto> IBDeviceInfo.Name si) else m)
       Map.empty sysfsDevices"

text \<open>
  The body of the inner loop of step 4: the entry for one port of one device, given the
  sysfs record of the device when there is one.
\<close>

definition sysfsAugment :: "(string \<rightharpoonup> string) \<Rightarrow> IBDeviceInfo option \<Rightarrow> DeviceEntry \<Rightarrow> DeviceEntry" where
  "sysfsAugment pciIndex si entry =
     (case si of
        Some info \<Rightarrow>
          (let entry = entry\<lparr>PCIAddress := IBDeviceInfo.PCIAddress info,
                               NUMANode := IBDeviceInfo.NUMANode info,
                               NetDevices := IBDeviceInfo.NetDevices info\<rparr>
           in if IsVF info then
                (let entry = entry\<lparr>Type := ''VF''\<rparr>
                 in if ParentPF info \<noteq> [] then
                      (case pciIndex (ParentPF info) of
                         Some parentIBDev \<Rightarrow> entry\<lparr>ParentDevice := parentIBDev\<rparr>
                       | None \<Rightarrow> entry)
                    else entry)
              else entry\<lparr>Type := ''PF''\<rparr>)
      | None \<Rightarrow> entry\<lparr>Type := ''PF''\<rparr>)"

definition portEntry :: "(string \<rightharpoonup> string) \<Rightarrow> DeviceInfo \<Rightarrow> IBDeviceInfo option \<Rightarrow> PortInfo \<Rightarrow> DeviceEntry" where
  "portEntry pciIndex ibDev si port =
     (let entry = \<lparr>DeviceName = DeviceInfo.Name ibDev @ ''-port'' @ Itoa (PortInfo.PortNum port),
                   IBDevName = DeviceInfo.Name ibDev,
                   PortNum = PortInfo.PortNum port,
                   Type = [],
                   LinkSpeed = EffectiveSpeed port,
                   PortState = PortState_String (State port),
                   FirmwareVersion = DeviceInfo.FirmwareVersion ibDev,
                   NodeGUID = NodeGUIDString ibDev,
                   PortGUID = [],
                   NUMANode = - 1,
                   PCIAddress = [],
                   ParentDevice = [],
                   NetDevices = []\<rparr>;
          entry = entry\<lparr>PortGUID := formatGID (GID port)\<rparr>
      in sysfsAugment pciIndex si entry)"

text \<open>Step 4: the entries of all ports of all devices, in the order of the two loops.\<close>

definition buildEntries :: "DeviceInfo list \<Rightarrow> IBDeviceInfo list \<Rightarrow> DeviceEntry list" where
  "buildEntries ibDevices sysfsDevices =
     concat (map (\<lambda>ibDev. map (portEntry (pciToIBDev sysfsDevices) ibDev
                                  (sysfsMap sysfsDevices (DeviceInfo.Name ibDev)))
                               (Ports ibDev))
                 ibDevices)"

text \<open>Step 5: the published device of an entry.\<close>

datatype DeviceAttribute = StringValue string | IntValue int

record Device =
  Name :: string
  Attributes :: "string \<rightharpoonup> DeviceAttribute"

definition publish :: "DeviceEntry \<Rightarrow> Device" where
  "publish e =
     (let dev = \<lparr>Name = DeviceName e,
                 Attributes =
                   [''type'' \<mapsto> StringValue (Type e),
                    ''linkSpeed'' \<mapsto> StringValue (LinkSpeed e),
                    ''portState'' \<mapsto> StringValue (PortState e),
                    ''firmwareVersion'' \<mapsto> StringValue (DeviceEntry.FirmwareVersion e),
                    ''nodeGUID'' \<mapsto> StringValue (DeviceEntry.NodeGUID e),
                    ''portGUID'' \<mapsto> StringValue (PortGUID e),
                    ''numaNode'' \<mapsto> IntValue (DeviceEntry.NUMANode e),
                    ''pciAddress'' \<mapsto> StringValue (DeviceEntry.PCIAddress e)]\<rparr>
      in if ParentDevice e \<noteq> []
         then dev\<lparr>Attributes := (Attributes dev)(''parentDevice'' \<mapsto> StringValue (ParentDevice e))\<rparr>
         else dev)"

text \<open>\<open>DriverResources\<close>: the pools by name, each with its slices of devices.\<close>

type_synonym DriverResources = "string \<rightharpoonup> Device list list"

text \<open>
  \<open>Profile.provisionVFs\<close>: the loop over the discovered PFs returns at the first error.
\<close>

fun provisionVFs_loop :: "int \<Rightarrow> PFInfo list \<Rightarrow> host \<Rightarrow> error option \<times> host" where
  "provisionVFs_loop n [] h = (None, h)"
| "provisionVFs_loop n (pf # pfs) h =
     (let desired = (if n > TotalVFs pf then TotalVFs pf else n)
      in case ProvisionVFs (PFInfo.PCIAddress pf) desired h of
           (Some err, h') \<Rightarrow> (Some (wrap (''provision VFs on '' @ PFInfo.PCIAddress pf) err), h')
         | (None, h') \<Rightarrow> provisionVFs_loop n pfs h')"

definition provisionVFs :: "Profile \<Rightarrow> host \<Rightarrow> error option \<times> host" where
  "provisionVFs p h =
     (case DiscoverSRIOVPFs h of
        Inl err \<Rightarrow> (Some (wrap ''discover SR-IOV PFs'' err), h)
      | Inr pfs \<Rightarrow> if length pfs = 0 then (None, h) else provisionVFs_loop (numVFs p) pfs h)"

text \<open>
  \<open>Profile.EnumerateDevices\<close>. An error of step 1 is logged and dropped; so is an error of
  the sysfs listing, which leaves the list of sysfs records empty. When libibverbs reports
  no device the function returns before it stores any entries.
\<close>

definition EnumerateDevices :: "Profile \<Rightarrow> host \<Rightarrow> (error + DriverResources) \<times> Profile \<times> host" where
  "EnumerateDevices p h =
     (let h1 = (if numVFs p > 0 then snd (provisionVFs p h) else h)
      in case ListDevices h1 of
           Inl err \<Rightarrow> (Inl (wrap ''ibverbs.ListDevices'' err), p, h1)
         | Inr ibDevices \<Rightarrow>
             if length ibDevices = 0 then (Inr Map.empty, p, h1)
             else
               (let sysfsDevices = (case ListIBDevices h1 of Inl err \<Rightarrow> [] | Inr ds \<Rightarrow> ds);
                    entries = buildEntries ibDevices sysfsDevices
                in (Inr [nodeName p \<mapsto> [map publish entries]], p\<lparr>devices := entries\<rparr>, h1)))"

section \<open>Package ib: container edits for allocated devices\<close>

record DeviceRequestAllocationResult =
  Request :: string
  Driver :: string
  Pool :: string
  Device :: string

record Hook =
  HookName :: string
  Path :: string
  Args :: "string list"

record ContainerEdits =
  Env :: "string list"
  Hooks :: "Hook list"

text \<open>\<open>strings.Index\<close>: the position of the first occurrence of a substring.\<close>

fun Index :: "string \<Rightarrow> string \<Rightarrow> nat option" where
  "Index [] substr = (if substr = [] then Some 0 else None)"
| "Index (c # s) substr =
     (if HasPrefix (c # s) substr then Some 0 else map_option Suc (Index s substr))"

text \<open>
  \<open>strings.SplitN(s, sep, 2)\<close> for a separator that is not empty: the string itself when
  the separator does not occur, else the text before its first occurrence and the text
  after it.
\<close>

definition SplitN2 :: "string \<Rightarrow> string \<Rightarrow> string list" where
  "SplitN2 s sep = (case Index s sep of None \<Rightarrow> [s] | Some i \<Rightarrow> [take i s, drop (i + length sep) s])"

text \<open>The body of the loop of \<open>applyIbConfig\<close> for the result at index \<open>i\<close>.\<close>

definition deviceEdits :: "IbConfig \<Rightarrow> nat \<Rightarrow> string \<Rightarrow> ContainerEdits" where
  "deviceEdits config i device =
     (let envs = [''IB_DEVICE_'' @ Itoa (int i) @ ''='' @ device];
          parts = SplitN2 device ''-port'';
          envs = (if length parts = 2
                  then envs @ [''IB_DEVICE_'' @ Itoa (int i) @ ''_IBDEV='' @ parts ! 0]
                            @ [''IB_DEVICE_'' @ Itoa (int i) @ ''_PORT='' @ parts ! 1]
                  else envs);
          envs = (case Pkey config of
                    Some pkey \<Rightarrow> envs @ [''IB_DEVICE_'' @ Itoa (int i) @ ''_PKEY=0x''
                                          @ zero_pad 4 (hexadecimal True (unat pkey))]
                  | None \<Rightarrow> envs);
          envs = (case TrafficClass config of
                    Some tc \<Rightarrow> envs @ [''IB_DEVICE_'' @ Itoa (int i) @ ''_TRAFFIC_CLASS='' @ Itoa (uint tc)]
                  | None \<Rightarrow> envs);
          envs = (case MTU config of
                    Some mtu \<Rightarrow> envs @ [''IB_DEVICE_'' @ Itoa (int i) @ ''_MTU='' @ Itoa mtu]
                  | None \<Rightarrow> envs);
          edits = \<lparr>Env = envs, Hooks = []\<rparr>;
          hookPath = ''/usr/bin/dra-example-kubeletplugin''
      in if length parts = 2
         then edits\<lparr>Hooks := [\<lparr>HookName = ''createRuntime'', Path = hookPath,
                                 Args = [hookPath, ''move-netdev'', ''--ib-dev'', parts ! 0]\<rparr>]\<rparr>
         else edits)"

text \<open>
  The loop stores the edits in a map keyed by the device name: a name that occurs twice
  keeps the edits of its last occurrence.
\<close>

fun applyIbConfig_loop ::
  "IbConfig \<Rightarrow> nat \<Rightarrow> DeviceRequestAllocationResult list \<Rightarrow> (string \<rightharpoonup> ContainerEdits)
     \<Rightarrow> (string \<rightharpoonup> ContainerEdits)" where
  "applyIbConfig_loop config i [] perDeviceEdits = perDeviceEdits"
| "applyIbConfig_loop config i (result # results) perDeviceEdits =
     applyIbConfig_loop config (Suc i) results
       (perDeviceEdits(Device result \<mapsto> deviceEdits config i (Device result)))"

text \<open>
  \<open>applyIbConfig\<close>: \<open>Normalize\<close> rejects the nil pointer, so the configuration is there
  when \<open>Validate\<close> and the loop read it.
\<close>

definition applyIbConfig ::
  "IbConfig option \<Rightarrow> DeviceRequestAllocationResult list \<Rightarrow> error + (string \<rightharpoonup> ContainerEdits)" where
  "applyIbConfig config results =
     (case Normalize config of
        Some err \<Rightarrow> Inl (wrap ''error normalizing IB config'' err)
      | None \<Rightarrow>
          (case Validate (the config) of
             Some err \<Rightarrow> Inl (wrap ''error validating IB config'' err)
           | None \<Rightarrow> Inr (applyIbConfig_loop (the config) 0 results Map.empty)))"

section \<open>Package netns and the hook helper\<close>








section \<open>Notions used to state the properties\<close>

text \<open>Enough VFs would be listed under the PF if the listing were made at clock value \<open>t\<close>.\<close>

definition VFs_seen :: "host \<Rightarrow> string \<Rightarrow> nat \<Rightarrow> int \<Rightarrow> bool" where
  "VFs_seen h pci t n = enough_VFs (ListVFs (h\<lparr>clock := t\<rparr>) pci) n"

text \<open>The number that a string of decimal digits denotes.\<close>

definition decimal_value :: "string \<Rightarrow> nat" where
  "decimal_value s = foldl (\<lambda>a c. 10 * a + (of_char c - 48)) 0 s"

text \<open>
  The environment entries of the configuration for the device at index \<open>i\<close> and the hook
  descriptor for an adapter, as the specification words them: the partition key as
  \<open>0x%04X\<close>, the traffic class and the MTU in decimal, each only if set; one
  \<open>createRuntime\<close> hook that re-invokes the plugin binary with the adapter name.
\<close>

definition spec_config_env :: "IbConfig \<Rightarrow> nat \<Rightarrow> string list" where
  "spec_config_env config i =
     (case Pkey config of
        None \<Rightarrow> []
      | Some pkey \<Rightarrow> [''IB_DEVICE_'' @ Itoa (int i) @ ''_PKEY=0x'' @ zero_pad 4 (hexadecimal True (unat pkey))])
     @ (case TrafficClass config of
          None \<Rightarrow> []
        | Some tc \<Rightarrow> [''IB_DEVICE_'' @ Itoa (int i) @ ''_TRAFFIC_CLASS='' @ Itoa (uint tc)])
     @ (case MTU config of
          None \<Rightarrow> []
        | Some mtu \<Rightarrow> [''IB_DEVICE_'' @ Itoa (int i) @ ''_MTU='' @ Itoa mtu])"

definition spec_hook :: "string \<Rightarrow> Hook" where
  "spec_hook adapter =
     \<lparr>HookName = ''createRuntime'', Path = ''/usr/bin/dra-example-kubeletplugin'',
      Args = [''/usr/bin/dra-example-kubeletplugin'', ''move-netdev'', ''--ib-dev'', adapter]\<rparr>"


section \<open>Examples\<close>

text \<open>
  A host with one SR-IOV adapter \<open>mlx5_0\<close> at \<open>0000:3b:00.0\<close> of capacity 8 and a second
  adapter \<open>mlx5_1\<close> at \<open>0000:5e:00.0\<close> of capacity 4 with no VFs. The parameters are the
  current VF count of the first adapter, the PCI addresses whose writes the kernel
  rejects, the clock value from which the VF entries are listed and their number.
\<close>

definition example_virtfns :: "nat \<Rightarrow> (string \<times> string option) list" where
  "example_virtfns n =
     map (\<lambda>i. (''virtfn'' @ decimal i, Some (''0000:3b:00.'' @ decimal (i + 1)))) [0..<n]"

definition example_info :: "int \<Rightarrow> string \<Rightarrow> IBDeviceInfo" where
  "example_info current devName =
     (if devName = ''mlx5_0'' then
        \<lparr>IBDeviceInfo.Name = devName, PCIAddress = ''0000:3b:00.0'', NUMANode = 0, IsPF = True, IsVF = False,
         SRIOVTotalVFs = 8, SRIOVNumVFs = current, ParentPF = [], NetDevices = [''ib0''],
         NodeGUID = ''0c42:a103:0065:1234'', PortGUIDs = Map.empty\<rparr>
      else
        \<lparr>IBDeviceInfo.Name = devName, PCIAddress = ''0000:5e:00.0'', NUMANode = 1, IsPF = True, IsVF = False,
         SRIOVTotalVFs = 4, SRIOVNumVFs = 0, ParentPF = [], NetDevices = [''ib1''],
         NodeGUID = ''0c42:a103:0065:5678'', PortGUIDs = Map.empty\<rparr>)"

definition example_host :: "int \<Rightarrow> string list \<Rightarrow> nat \<Rightarrow> nat \<Rightarrow> host" where
  "example_host current rejecting appear n =
     \<lparr>sriov_totalvfs = (\<lambda>pci. if pci = ''0000:3b:00.0'' then Inr 8
                               else if pci = ''0000:5e:00.0'' then Inr 4
                               else Inl (Error ''no such file or directory'')),
      sriov_numvfs = (\<lambda>pci. if pci = ''0000:3b:00.0'' then Inr current
                             else if pci = ''0000:5e:00.0'' then Inr 0
                             else Inl (Error ''no such file or directory'')),
      write_outcome = (\<lambda>log pci count. if pci \<in> set rejecting then Some (Error ''permission denied'') else None),
      pf_dir = (\<lambda>pci t. if pci = ''0000:3b:00.0'' \<or> pci = ''0000:5e:00.0''
                  then Inr ((''driver'', Some ''mlx5_core'') # (if appear \<le> t then example_virtfns n else []))
                  else Inl (Error ''no such file or directory'')),
      infiniband_class = (\<lambda>log. Inr (Some [''mlx5_0'', ''mlx5_1''])),
      device_info = (\<lambda>log. example_info current),
      ibv_get_device_list = (\<lambda>log. Some []),
      exec_outcome = (\<lambda>log argv. ([], None)),
      clock = 0,
      writes = [],
      commands = []\<rparr>"

text \<open>A port with given codes and an adapter with two ports, as libibverbs reports them.\<close>

definition example_port :: "int \<Rightarrow> int \<Rightarrow> int \<Rightarrow> PortInfo" where
  "example_port n speed width =
     \<lparr>PortInfo.PortNum = n, State = 4, ActiveSpeed = speed, ActiveWidth = width, LID = 7,
      ActiveMTU = 4096, GID = replicate 16 0, LinkLayer = ''InfiniBand''\<rparr>"

definition example_adapter :: "string \<Rightarrow> DeviceInfo" where
  "example_adapter name =
     \<lparr>DeviceInfo.Name = name, NodeGUID = 0x0c42a10300651234, FirmwareVersion = ''20.31.1014'', NumPorts = 2,
      Ports = [example_port 1 32 2, example_port 2 4 1], NodeType = 1, TransportType = 0,
      VendorID = 0x02c9, DeviceID = 4123\<rparr>"

text \<open>
  What libibverbs answers for an adapter with two active ports, and a host whose device
  list holds two such adapters and a null entry.
\<close>

definition example_ibv_device :: "string \<Rightarrow> ibv_device" where
  "example_ibv_device name =
     \<lparr>device_name = name, device_guid = 0x0c42a10300651234, node_type = 1, transport_type = 0,
      open_device = True,
      query_device = Inr \<lparr>fw_ver = ''20.31.1014'', phys_port_cnt = 2, vendor_id = 0x02c9, vendor_part_id = 4123\<rparr>,
      query_port = (\<lambda>port. if port = 1 \<or> port = 2
                      then Inr \<lparr>state = 4, active_mtu = 5, active_speed = 32, active_width = 2, lid = 7,
                               link_layer = 1\<rparr>
                      else Inl 22),
      query_gid = (\<lambda>port. Some (replicate 16 0))\<rparr>"

definition example_verbs_host :: host where
  "example_verbs_host =
     (example_host 0 [] 0 0)
       \<lparr>ibv_get_device_list :=
          (\<lambda>log. Some [Some (example_ibv_device ''mlx5_0''), None, Some (example_ibv_device ''mlx5_1'')])\<rparr>"

text \<open>An allocation result for a device and a configuration with every field set.\<close>

definition example_result :: "string \<Rightarrow> DeviceRequestAllocationResult" where
  "example_result device = \<lparr>Request = ''ib'', Driver = ''ib.sigs.k8s.io'', Pool = ''node-1'', Device = device\<rparr>"

definition example_config :: IbConfig where
  "example_config = \<lparr>Pkey = Some 0x8001, TrafficClass = Some 64, MTU = Some 2048\<rparr>"


section \<open>Evaluation rules\<close>

lemmas fmt_eval = Itoa_def decimal.simps zero_pad_def hexadecimal.simps hex_digit_def ldigits_def udigits_def

lemma go_int_id: "- (2 ^ 63) \<le> x \<Longrightarrow> x < 2 ^ 63 \<Longrightarrow> go_int x = x"
  by (simp add: go_int_def)

section \<open>Effective speed\<close>

lemma spec_multiplier_cases: "spec_multiplier w \<in> {1, 4, 8, 12}"
  by (simp add: spec_multiplier_def spec_lane_multipliers_def)

lemma go_int_speed_product:
  assumes "- (2 ^ 31) \<le> s" and "s < 2 ^ 31"
  shows "go_int (s * spec_multiplier w) = s * spec_multiplier w"
proof -
  have "go_int (s * m) = s * m" if "m \<in> {1, 4, 8, 12}" for m :: int
  proof (rule go_int_id)
    from that assms show "- (2 ^ 63) \<le> s * m" by auto
    from that assms show "s * m < 2 ^ 63" by auto
  qed
  with spec_multiplier_cases show ?thesis by blast
qed

text \<open>
  C4. For every port, \<open>EffectiveSpeed\<close> is the base rate of the speed code times the lane
  multiplier of the width code, in decimal and followed by \<open>Gb/s\<close>, with the tables of
  the specification (a width code outside its table multiplies by 1); a speed code
  outside the table is itself multiplied, as a Go \<open>int\<close>, without a lookup, and the
  product is exact for every speed code in the range of a C \<open>int\<close>. Width code 2 with
  speed code 32 gives \<open>100Gb/s\<close>, width code 1 with speed code 4 gives \<open>10Gb/s\<close>.
\<close>

theorem EffectiveSpeed_table:
  "EffectiveSpeed p =
     (case map_of spec_base_rates (ActiveSpeed p) of
        Some b \<Rightarrow> Itoa (b * spec_multiplier (ActiveWidth p)) @ ''Gb/s''
      | None \<Rightarrow> Itoa (go_int (ActiveSpeed p * spec_multiplier (ActiveWidth p))) @ ''Gb/s'') \<and>
   (- (2 ^ 31) \<le> ActiveSpeed p \<and> ActiveSpeed p < 2 ^ 31 \<longrightarrow>
      go_int (ActiveSpeed p * spec_multiplier (ActiveWidth p)) = ActiveSpeed p * spec_multiplier (ActiveWidth p)) \<and>
   EffectiveSpeed (p\<lparr>ActiveWidth := 2, ActiveSpeed := 32\<rparr>) = ''100Gb/s'' \<and>
   EffectiveSpeed (p\<lparr>ActiveWidth := 1, ActiveSpeed := 4\<rparr>) = ''10Gb/s''"
proof -
  have table: "EffectiveSpeed p =
     (case map_of spec_base_rates (ActiveSpeed p) of
        Some b \<Rightarrow> Itoa (b * spec_multiplier (ActiveWidth p)) @ ''Gb/s''
      | None \<Rightarrow> Itoa (go_int (ActiveSpeed p * spec_multiplier (ActiveWidth p))) @ ''Gb/s'')"
    by (simp add: EffectiveSpeed_def baseSpeed_def widthMultiplier_def spec_multiplier_def
        spec_base_rates_def spec_lane_multipliers_def go_int_def)
  have edr: "EffectiveSpeed (p\<lparr>ActiveWidth := 2, ActiveSpeed := 32\<rparr>) = ''100Gb/s''"
    by (simp add: EffectiveSpeed_def baseSpeed_def widthMultiplier_def go_int_def fmt_eval)
  have qdr: "EffectiveSpeed (p\<lparr>ActiveWidth := 1, ActiveSpeed := 4\<rparr>) = ''10Gb/s''"
    by (simp add: EffectiveSpeed_def baseSpeed_def widthMultiplier_def go_int_def fmt_eval)
  from table edr qdr go_int_speed_product [of "ActiveSpeed p" "ActiveWidth p"] show ?thesis by simp
qed

theorem EffectiveSpeed_table_witness:
  "- (2 ^ 31) \<le> (512 :: int) \<and> (512 :: int) < 2 ^ 31 \<and>
   EffectiveSpeed (example_port 1 512 2) = ''2048Gb/s''"
  using EffectiveSpeed_table [of "example_port 1 512 2"]
  by (simp add: example_port_def spec_base_rates_def spec_multiplier_def spec_lane_multipliers_def fmt_eval)


section \<open>VF provisioning on one PF\<close>

lemma VFs_seen_now: "VFs_seen h pci (clock h) n = enough_VFs (ListVFs h pci) n"
  by (simp add: VFs_seen_def)

lemma VFs_seen_Sleep: "VFs_seen (Sleep d h) pci t n = VFs_seen h pci t n"
  by (simp add: VFs_seen_def Sleep_def ListVFs_def)

lemma waitForVFs_loop_frame:
  "waitForVFs_loop pci e d h = (r, h') \<Longrightarrow> h' = h\<lparr>clock := clock h'\<rparr> \<and> clock h \<le> clock h'"
proof (induction pci e d h rule: waitForVFs_loop.induct)
  case (1 pci e d h)
  show ?case
  proof (cases "clock h < d \<and> \<not> enough_VFs (ListVFs h pci) e")
    case False
    with "1.prems" show ?thesis
      by (auto simp: waitForVFs_loop.simps[of pci e d h] split: if_splits)
  next
    case True
    with "1.prems" have "waitForVFs_loop pci e d (Sleep vfPollInterval h) = (r, h')"
      by (simp add: waitForVFs_loop.simps[of pci e d h])
    with True "1.IH" have "h' = (Sleep vfPollInterval h)\<lparr>clock := clock h'\<rparr> \<and> clock (Sleep vfPollInterval h) \<le> clock h'"
      by blast
    then show ?thesis by (auto simp: Sleep_def)
  qed
qed

lemma waitForVFs_loop_success:
  "waitForVFs_loop pci e d h = (None, h') \<Longrightarrow> clock h' < d \<and> enough_VFs (ListVFs h' pci) e"
proof (induction pci e d h rule: waitForVFs_loop.induct)
  case (1 pci e d h)
  show ?case
  proof (cases "clock h < d \<and> \<not> enough_VFs (ListVFs h pci) e")
    case False
    with "1.prems" show ?thesis
      by (auto simp: waitForVFs_loop.simps[of pci e d h] split: if_splits)
  next
    case True
    with "1.prems" have "waitForVFs_loop pci e d (Sleep vfPollInterval h) = (None, h')"
      by (simp add: waitForVFs_loop.simps[of pci e d h])
    with True "1.IH" show ?thesis by blast
  qed
qed

lemma waitForVFs_loop_timeout:
  "(\<And>t. clock h \<le> t \<Longrightarrow> t < d \<Longrightarrow> \<not> VFs_seen h pci t e) \<Longrightarrow>
   fst (waitForVFs_loop pci e d h) = Some (Error (''timed out waiting for '' @ Itoa e @ '' VFs on PF '' @ pci))"
proof (induction pci e d h rule: waitForVFs_loop.induct)
  case (1 pci e d h)
  show ?case
  proof (cases "clock h < d")
    case False
    then show ?thesis by (simp add: waitForVFs_loop.simps[of pci e d h])
  next
    case True
    with "1.prems"[of "clock h"] have ne: "\<not> enough_VFs (ListVFs h pci) e"
      by (simp add: VFs_seen_now)
    have "fst (waitForVFs_loop pci e d (Sleep vfPollInterval h)) =
          Some (Error (''timed out waiting for '' @ Itoa e @ '' VFs on PF '' @ pci))"
    proof (rule "1.IH"[OF True ne])
      fix t assume "clock (Sleep vfPollInterval h) \<le> t" "t < d"
      then have "clock h \<le> t" by (simp add: Sleep_def)
      from "1.prems"[OF this \<open>t < d\<close>] show "\<not> VFs_seen (Sleep vfPollInterval h) pci t e"
        by (simp add: VFs_seen_Sleep)
    qed
    with True ne show ?thesis by (simp add: waitForVFs_loop.simps[of pci e d h])
  qed
qed

lemma waitForVFs_loop_bound:
  "waitForVFs_loop pci e d h = (r, h') \<Longrightarrow> clock h \<le> d \<Longrightarrow> clock h' < d + vfPollInterval"
proof (induction pci e d h rule: waitForVFs_loop.induct)
  case (1 pci e d h)
  show ?case
  proof (cases "clock h < d \<and> \<not> enough_VFs (ListVFs h pci) e")
    case False
    with "1.prems" show ?thesis
      by (auto simp: waitForVFs_loop.simps[of pci e d h] vfPollInterval_def split: if_splits)
  next
    case True
    with "1.prems" have rec: "waitForVFs_loop pci e d (Sleep vfPollInterval h) = (r, h')"
      by (simp add: waitForVFs_loop.simps[of pci e d h])
    show ?thesis
    proof (cases "clock (Sleep vfPollInterval h) \<le> d")
      case True
      with \<open>clock h < d \<and> _\<close> "1.IH" rec show ?thesis by blast
    next
      case False
      then have "\<not> clock (Sleep vfPollInterval h) < d" by simp
      with rec have "h' = Sleep vfPollInterval h"
        by (simp add: waitForVFs_loop.simps[of pci e d "Sleep vfPollInterval h"])
      with True show ?thesis by (simp add: Sleep_def)
    qed
  qed
qed


lemma waitForVFs_frame:
  "waitForVFs pci e h = (r, h') \<Longrightarrow> h' = h\<lparr>clock := clock h'\<rparr> \<and> clock h \<le> clock h'"
  unfolding waitForVFs_def by (rule waitForVFs_loop_frame)

lemma SetSRIOVNumVFs_rejected:
  "write_outcome h (writes h) pf n = Some err \<Longrightarrow>
   SetSRIOVNumVFs pf n h = (Some err, h\<lparr>writes := writes h @ [(pf, n)]\<rparr>)"
  by (simp add: SetSRIOVNumVFs_def)

lemma SetSRIOVNumVFs_accepted:
  "write_outcome h (writes h) pf n = None \<Longrightarrow>
   SetSRIOVNumVFs pf n h =
     (None, h\<lparr>writes := writes h @ [(pf, n)], sriov_numvfs := (sriov_numvfs h)(pf := Inr n)\<rparr>)"
  by (simp add: SetSRIOVNumVFs_def)

lemma SetSRIOVNumVFs_result:
  "SetSRIOVNumVFs pf n h = (r, h') \<Longrightarrow>
     r = write_outcome h (writes h) pf n \<and>
     writes h' = writes h @ [(pf, n)] \<and> clock h' = clock h \<and>
     sriov_totalvfs h' = sriov_totalvfs h \<and> write_outcome h' = write_outcome h \<and> pf_dir h' = pf_dir h \<and>
     (r = None \<longrightarrow> sriov_numvfs h' pf = Inr n)"
  by (auto simp: SetSRIOVNumVFs_def Let_def split: option.splits)

lemma resetVFs_result:
  "resetVFs pf cur h = (r, h') \<Longrightarrow> 0 < cur \<Longrightarrow>
     writes h' = writes h @ [(pf, 0)] \<and>
     sriov_totalvfs h' = sriov_totalvfs h \<and> write_outcome h' = write_outcome h \<and> pf_dir h' = pf_dir h \<and>
     (r = None \<longleftrightarrow> write_outcome h (writes h) pf 0 = None) \<and>
     (r = None \<longrightarrow> clock h' = clock h + 1000) \<and>
     (r \<noteq> None \<longrightarrow> clock h' = clock h)"
  by (auto simp: resetVFs_def SetSRIOVNumVFs_def Let_def Sleep_def split: option.splits)

lemma ListVFs_cong: "pf_dir h = pf_dir g \<Longrightarrow> clock h = clock g \<Longrightarrow> ListVFs h pf = ListVFs g pf"
  by (simp add: ListVFs_def)

text \<open>
  C2. When the requested count exceeds the capacity that \<open>sriov_totalvfs\<close> reports,
  \<open>ProvisionVFs\<close> returns the error that gives the requested count, the maximum and the
  PF, and the host is left as it was: no call of \<open>SetSRIOVNumVFs\<close> is made.
\<close>

theorem ProvisionVFs_exceeds_capacity:
  assumes "GetSRIOVTotalVFs h pf = Inr totalVFs" and "desired > totalVFs"
  shows "ProvisionVFs pf desired h =
           (Some (Error (''requested '' @ Itoa desired @ '' VFs exceeds maximum '' @ Itoa totalVFs
                         @ '' for PF '' @ pf)), h)"
  using assms by (simp add: ProvisionVFs_def)

lemma ProvisionVFs_already:
  "GetSRIOVTotalVFs h pf = Inr totalVFs \<Longrightarrow> desired \<le> totalVFs \<Longrightarrow> GetSRIOVNumVFs h pf = Inr desired \<Longrightarrow>
   ProvisionVFs pf desired h = (None, h)"
  by (simp add: ProvisionVFs_def)

lemma ProvisionVFs_success_state:
  assumes "ProvisionVFs pf desired h = (None, h')"
  shows "\<exists>totalVFs. GetSRIOVTotalVFs h' pf = Inr totalVFs \<and> desired \<le> totalVFs \<and> GetSRIOVNumVFs h' pf = Inr desired"
proof -
  from assms obtain totalVFs where tot: "GetSRIOVTotalVFs h pf = Inr totalVFs" and le: "desired \<le> totalVFs"
    by (auto simp: ProvisionVFs_def split: sum.splits if_splits)
  from assms tot le obtain cur where cur: "GetSRIOVNumVFs h pf = Inr cur"
    by (auto simp: ProvisionVFs_def split: sum.splits if_splits)
  show ?thesis
  proof (cases "cur = desired")
    case True
    with assms tot le cur have "h' = h" by (simp add: ProvisionVFs_def)
    with tot le cur True show ?thesis by auto
  next
    case False
    with assms tot le cur obtain h1 h2 where
      r: "resetVFs pf cur h = (None, h1)" and s: "SetSRIOVNumVFs pf desired h1 = (None, h2)"
      and w: "waitForVFs pf desired h2 = (None, h')"
      by (auto simp: ProvisionVFs_def split: prod.splits option.splits)
    from r have t1: "sriov_totalvfs h1 = sriov_totalvfs h"
      by (auto simp: resetVFs_def SetSRIOVNumVFs_def Let_def Sleep_def split: if_splits option.splits)
    from SetSRIOVNumVFs_result[OF s] have t2: "sriov_totalvfs h2 = sriov_totalvfs h1" and n2: "sriov_numvfs h2 pf = Inr desired"
      by auto
    from waitForVFs_frame[OF w] have "h' = h2\<lparr>clock := clock h'\<rparr>" by simp
    then have "sriov_totalvfs h' = sriov_totalvfs h2" "sriov_numvfs h' = sriov_numvfs h2"
      by (metis host.select_convs host.surjective host.update_convs)+
    with t1 t2 n2 tot le show ?thesis by (auto simp: GetSRIOVTotalVFs_def GetSRIOVNumVFs_def)
  qed
qed

text \<open>
  C3. When the current VF count already equals the desired count (within capacity),
  \<open>ProvisionVFs\<close> succeeds and leaves the host as it was, so it writes nothing; and
  after a call that succeeded, a second call with the same count succeeds and leaves the
  host as the first call left it.
\<close>

theorem ProvisionVFs_idempotent:
  "(GetSRIOVTotalVFs h pf = Inr totalVFs \<and> desired \<le> totalVFs \<and> GetSRIOVNumVFs h pf = Inr desired
      \<longrightarrow> ProvisionVFs pf desired h = (None, h)) \<and>
   (ProvisionVFs pf desired h = (None, h') \<longrightarrow> ProvisionVFs pf desired h' = (None, h'))"
  using ProvisionVFs_already ProvisionVFs_success_state by blast


text \<open>
  C1. For a PF whose current VF count is positive and differs from the desired count
  (within capacity): the calls of \<open>SetSRIOVNumVFs\<close> that \<open>ProvisionVFs\<close> makes are the
  write of 0 and, after it, at most the write of the desired count; when it returns
  success both writes were made, the listing at the final clock value shows at least the
  desired number of VFs, and that clock value lies within the settle timeout that starts
  after the one second pause; when the kernel accepts both writes and no listing within
  the timeout shows enough VFs, it returns the error that names the PF and the requested
  count, and the writes stay as they are: nothing is written after the desired count and
  \<open>sriov_numvfs\<close> still reads it. The poll is bounded: in every case the call returns
  before the clock has advanced by the pause, the timeout and one poll interval.
\<close>

theorem ProvisionVFs_resize:
  assumes tot: "GetSRIOVTotalVFs h pf = Inr totalVFs" and le: "desired \<le> totalVFs"
    and cur: "GetSRIOVNumVFs h pf = Inr currentVFs" and pos: "0 < currentVFs" and ne: "currentVFs \<noteq> desired"
    and run: "ProvisionVFs pf desired h = (r, h')"
  shows "(writes h' = writes h @ [(pf, 0)] \<or> writes h' = writes h @ [(pf, 0), (pf, desired)]) \<and>
         (r = None \<longrightarrow>
            writes h' = writes h @ [(pf, 0), (pf, desired)] \<and>
            enough_VFs (ListVFs h' pf) desired \<and>
            clock h + 1000 \<le> clock h' \<and> clock h' < clock h + 1000 + vfSettleTimeout) \<and>
         (write_outcome h (writes h) pf 0 = None \<and>
          write_outcome h (writes h @ [(pf, 0)]) pf desired = None \<and>
          (\<forall>t. clock h + 1000 \<le> t \<and> t < clock h + 1000 + vfSettleTimeout \<longrightarrow>
               \<not> enough_VFs (ListVFs (h\<lparr>clock := t\<rparr>) pf) desired) \<longrightarrow>
            r = Some (Error (''VFs did not appear for '' @ pf @ '': timed out waiting for '' @ Itoa desired
                             @ '' VFs on PF '' @ pf)) \<and>
            writes h' = writes h @ [(pf, 0), (pf, desired)] \<and>
            GetSRIOVNumVFs h' pf = Inr desired) \<and>
         clock h' < clock h + 1000 + vfSettleTimeout + vfPollInterval"
proof -
  obtain r1 h1 where r1: "resetVFs pf currentVFs h = (r1, h1)" by (cases "resetVFs pf currentVFs h")
  note R = resetVFs_result[OF r1 pos]
  show ?thesis
  proof (cases r1)
    case (Some err)
    with run tot le cur ne r1 have "h' = h1" "r = Some err"
      by (simp_all add: ProvisionVFs_def)
    with R Some show ?thesis by (auto simp: vfPollInterval_def)
  next
    case None
    obtain r2 h2 where r2: "SetSRIOVNumVFs pf desired h1 = (r2, h2)" by (cases "SetSRIOVNumVFs pf desired h1")
    note S = SetSRIOVNumVFs_result[OF r2]
    from R None have c1: "clock h1 = clock h + 1000" and w0: "write_outcome h (writes h) pf 0 = None" by auto
    from R S have w2: "writes h2 = writes h @ [(pf, 0), (pf, desired)]" by simp
    from R S have o2: "r2 = write_outcome h (writes h @ [(pf, 0)]) pf desired" by simp
    show ?thesis
    proof (cases r2)
      case (Some err)
      with run tot le cur ne r1 None r2 have "h' = h2" "r = Some (wrap (''set sriov_numvfs to '' @ Itoa desired @ '' for '' @ pf) err)"
        by (simp_all add: ProvisionVFs_def)
      moreover from S R None have "clock h2 = clock h + 1000" by simp
      ultimately show ?thesis using w2 o2 Some by (auto simp: vfPollInterval_def)
    next
      case n2: None
      obtain r3 h3 where r3: "waitForVFs pf desired h2 = (r3, h3)" by (cases "waitForVFs pf desired h2")
      from run tot le cur ne r1 None r2 n2 r3 have h': "h' = h3"
        and r: "r = (case r3 of None \<Rightarrow> None | Some err \<Rightarrow> Some (wrap (''VFs did not appear for '' @ pf) err))"
        by (simp_all add: ProvisionVFs_def split: option.splits)
      from waitForVFs_frame[OF r3] have fr: "h3 = h2\<lparr>clock := clock h3\<rparr>" and mono: "clock h2 \<le> clock h3" by simp_all
      from fr have w3: "writes h3 = writes h2" and n3: "sriov_numvfs h3 = sriov_numvfs h2"
        by (metis host.select_convs host.surjective host.update_convs)+
      from S c1 have c2: "clock h2 = clock h + 1000" by simp
      from S n2 have nv: "sriov_numvfs h2 pf = Inr desired" by simp
      have part1: "writes h' = writes h @ [(pf, 0), (pf, desired)]" using h' w3 w2 by simp
      have part2: "r = None \<longrightarrow> enough_VFs (ListVFs h' pf) desired \<and>
            clock h + 1000 \<le> clock h' \<and> clock h' < clock h + 1000 + vfSettleTimeout"
      proof
        assume "r = None"
        with r have "r3 = None" by (cases r3) simp_all
        with r3 have "waitForVFs_loop pf desired (clock h2 + vfSettleTimeout) h2 = (None, h3)"
          by (simp add: waitForVFs_def)
        from waitForVFs_loop_success[OF this] mono c2 h'
        show "enough_VFs (ListVFs h' pf) desired \<and>
            clock h + 1000 \<le> clock h' \<and> clock h' < clock h + 1000 + vfSettleTimeout" by simp
      qed
      have part3: "(\<forall>t. clock h + 1000 \<le> t \<and> t < clock h + 1000 + vfSettleTimeout \<longrightarrow>
               \<not> enough_VFs (ListVFs (h\<lparr>clock := t\<rparr>) pf) desired) \<longrightarrow>
            r = Some (Error (''VFs did not appear for '' @ pf @ '': timed out waiting for '' @ Itoa desired
                             @ '' VFs on PF '' @ pf)) \<and> GetSRIOVNumVFs h' pf = Inr desired"
      proof
        assume never: "\<forall>t. clock h + 1000 \<le> t \<and> t < clock h + 1000 + vfSettleTimeout \<longrightarrow>
               \<not> enough_VFs (ListVFs (h\<lparr>clock := t\<rparr>) pf) desired"
        have dir: "pf_dir h2 = pf_dir h" using R S by simp
        have "fst (waitForVFs_loop pf desired (clock h2 + vfSettleTimeout) h2) =
                Some (Error (''timed out waiting for '' @ Itoa desired @ '' VFs on PF '' @ pf))"
        proof (rule waitForVFs_loop_timeout)
          fix t assume "clock h2 \<le> t" "t < clock h2 + vfSettleTimeout"
          with never c2 have "\<not> enough_VFs (ListVFs (h\<lparr>clock := t\<rparr>) pf) desired" by simp
          moreover have "ListVFs (h2\<lparr>clock := t\<rparr>) pf = ListVFs (h\<lparr>clock := t\<rparr>) pf"
            by (rule ListVFs_cong) (simp_all add: dir)
          ultimately show "\<not> VFs_seen h2 pf t desired" by (simp add: VFs_seen_def)
        qed
        with r3 have "r3 = Some (Error (''timed out waiting for '' @ Itoa desired @ '' VFs on PF '' @ pf))"
          by (simp add: waitForVFs_def)
        with r have "r = Some (Error (''VFs did not appear for '' @ pf @ '': timed out waiting for '' @ Itoa desired
                             @ '' VFs on PF '' @ pf))" by (simp add: wrap_def)
        moreover from h' n3 nv have "GetSRIOVNumVFs h' pf = Inr desired" by (simp add: GetSRIOVNumVFs_def)
        ultimately show "r = Some (Error (''VFs did not appear for '' @ pf @ '': timed out waiting for '' @ Itoa desired
                             @ '' VFs on PF '' @ pf)) \<and> GetSRIOVNumVFs h' pf = Inr desired" by simp
      qed
      have part4: "clock h' < clock h + 1000 + vfSettleTimeout + vfPollInterval"
      proof -
        from r3 have "waitForVFs_loop pf desired (clock h2 + vfSettleTimeout) h2 = (r3, h3)"
          by (simp add: waitForVFs_def)
        from waitForVFs_loop_bound[OF this] c2 h' show ?thesis by simp
      qed
      from part1 part2 part3 part4 show ?thesis by blast
    qed
  qed
qed

lemmas sriov_eval = ProvisionVFs_def GetSRIOVTotalVFs_def GetSRIOVNumVFs_def resetVFs_def SetSRIOVNumVFs_def
  Sleep_def waitForVFs_def waitForVFs_loop.simps enough_VFs_def ListVFs_def HasPrefix_def
  vfSettleTimeout_def vfPollInterval_def List.map_filter_def Let_def wrap_def

lemma example_virtfns_2:
  "example_virtfns 2 = [(''virtfn0'', Some ''0000:3b:00.1''), (''virtfn1'', Some ''0000:3b:00.2'')]"
  by code_simp

lemma example_virtfns_1: "example_virtfns (Suc 0) = [(''virtfn0'', Some ''0000:3b:00.1'')]"
  by code_simp

lemma example_resize_succeeds: "fst (ProvisionVFs ''0000:3b:00.0'' 2 (example_host 4 [] 2000 2)) = None"
  by (simp add: example_host_def sriov_eval example_virtfns_2)

lemma example_one_VF_only:
  "\<not> enough_VFs (ListVFs ((example_host 4 [] 2000 1)\<lparr>clock := t\<rparr>) ''0000:3b:00.0'') 2"
  by (simp add: example_host_def enough_VFs_def ListVFs_def HasPrefix_def List.map_filter_def example_virtfns_1)

theorem ProvisionVFs_exceeds_capacity_witness:
  "GetSRIOVTotalVFs (example_host 4 [] 2000 2) ''0000:3b:00.0'' = Inr 8 \<and> (16 :: int) > 8 \<and>
   ProvisionVFs ''0000:3b:00.0'' 16 (example_host 4 [] 2000 2) =
     (Some (Error ''requested 16 VFs exceeds maximum 8 for PF 0000:3b:00.0''), example_host 4 [] 2000 2)"
proof -
  have tot: "GetSRIOVTotalVFs (example_host 4 [] 2000 2) ''0000:3b:00.0'' = Inr 8"
    by (simp add: GetSRIOVTotalVFs_def example_host_def)
  have gt: "(16 :: int) > 8" by simp
  from ProvisionVFs_exceeds_capacity [OF tot gt] tot show ?thesis by (simp add: fmt_eval)
qed

theorem ProvisionVFs_idempotent_witness:
  "ProvisionVFs ''0000:3b:00.0'' 4 (example_host 4 [] 2000 2) = (None, example_host 4 [] 2000 2) \<and>
   fst (ProvisionVFs ''0000:3b:00.0'' 2 (example_host 4 [] 2000 2)) = None \<and>
   ProvisionVFs ''0000:3b:00.0'' 2 (snd (ProvisionVFs ''0000:3b:00.0'' 2 (example_host 4 [] 2000 2))) =
     (None, snd (ProvisionVFs ''0000:3b:00.0'' 2 (example_host 4 [] 2000 2)))"
proof -
  have tot: "GetSRIOVTotalVFs (example_host 4 [] 2000 2) ''0000:3b:00.0'' = Inr 8"
    by (simp add: GetSRIOVTotalVFs_def example_host_def)
  have cur: "GetSRIOVNumVFs (example_host 4 [] 2000 2) ''0000:3b:00.0'' = Inr 4"
    by (simp add: GetSRIOVNumVFs_def example_host_def)
  have first: "ProvisionVFs ''0000:3b:00.0'' 2 (example_host 4 [] 2000 2) =
                 (None, snd (ProvisionVFs ''0000:3b:00.0'' 2 (example_host 4 [] 2000 2)))"
    using example_resize_succeeds by (simp add: prod_eq_iff)
  from ProvisionVFs_idempotent [of "example_host 4 [] 2000 2" "''0000:3b:00.0''" 8 4] tot cur
  have a: "ProvisionVFs ''0000:3b:00.0'' 4 (example_host 4 [] 2000 2) = (None, example_host 4 [] 2000 2)"
    by simp
  from ProvisionVFs_idempotent
         [of "example_host 4 [] 2000 2" "''0000:3b:00.0''" 8 2
             "snd (ProvisionVFs ''0000:3b:00.0'' 2 (example_host 4 [] 2000 2))"] first
  have b: "ProvisionVFs ''0000:3b:00.0'' 2 (snd (ProvisionVFs ''0000:3b:00.0'' 2 (example_host 4 [] 2000 2))) =
     (None, snd (ProvisionVFs ''0000:3b:00.0'' 2 (example_host 4 [] 2000 2)))"
    by blast
  from a b example_resize_succeeds show ?thesis by simp
qed

theorem ProvisionVFs_resize_witness:
  "fst (ProvisionVFs ''0000:3b:00.0'' 2 (example_host 4 [] 2000 2)) = None \<and>
   writes (snd (ProvisionVFs ''0000:3b:00.0'' 2 (example_host 4 [] 2000 2))) =
     [(''0000:3b:00.0'', 0), (''0000:3b:00.0'', 2)] \<and>
   enough_VFs (ListVFs (snd (ProvisionVFs ''0000:3b:00.0'' 2 (example_host 4 [] 2000 2))) ''0000:3b:00.0'') 2 \<and>
   fst (ProvisionVFs ''0000:3b:00.0'' 2 (example_host 4 [] 2000 1)) =
     Some (Error ''VFs did not appear for 0000:3b:00.0: timed out waiting for 2 VFs on PF 0000:3b:00.0'') \<and>
   writes (snd (ProvisionVFs ''0000:3b:00.0'' 2 (example_host 4 [] 2000 1))) =
     [(''0000:3b:00.0'', 0), (''0000:3b:00.0'', 2)] \<and>
   GetSRIOVNumVFs (snd (ProvisionVFs ''0000:3b:00.0'' 2 (example_host 4 [] 2000 1))) ''0000:3b:00.0'' = Inr 2"
proof -
  have tot: "GetSRIOVTotalVFs (example_host 4 [] 2000 n) ''0000:3b:00.0'' = Inr 8" for n
    by (simp add: GetSRIOVTotalVFs_def example_host_def)
  have cur: "GetSRIOVNumVFs (example_host 4 [] 2000 n) ''0000:3b:00.0'' = Inr 4" for n
    by (simp add: GetSRIOVNumVFs_def example_host_def)
  have acc: "write_outcome (example_host 4 [] 2000 n) log ''0000:3b:00.0'' c = None" for n log c
    by (simp add: example_host_def)
  have w0: "writes (example_host 4 [] 2000 n) = []" and c0: "clock (example_host 4 [] 2000 n) = 0" for n
    by (simp_all add: example_host_def)
  from ProvisionVFs_resize
         [of "example_host 4 [] 2000 2" "''0000:3b:00.0''" 8 2 4
             "fst (ProvisionVFs ''0000:3b:00.0'' 2 (example_host 4 [] 2000 2))"
             "snd (ProvisionVFs ''0000:3b:00.0'' 2 (example_host 4 [] 2000 2))",
          OF tot _ cur _ _ prod.collapse [symmetric]]
       example_resize_succeeds w0 [of 2]
  have ok: "writes (snd (ProvisionVFs ''0000:3b:00.0'' 2 (example_host 4 [] 2000 2))) =
              [(''0000:3b:00.0'', 0), (''0000:3b:00.0'', 2)] \<and>
            enough_VFs (ListVFs (snd (ProvisionVFs ''0000:3b:00.0'' 2 (example_host 4 [] 2000 2))) ''0000:3b:00.0'') 2"
    by simp
  from ProvisionVFs_resize
         [of "example_host 4 [] 2000 1" "''0000:3b:00.0''" 8 2 4
             "fst (ProvisionVFs ''0000:3b:00.0'' 2 (example_host 4 [] 2000 1))"
             "snd (ProvisionVFs ''0000:3b:00.0'' 2 (example_host 4 [] 2000 1))",
          OF tot _ cur _ _ prod.collapse [symmetric]]
       acc example_one_VF_only w0 [of 1]
  have slow: "fst (ProvisionVFs ''0000:3b:00.0'' 2 (example_host 4 [] 2000 1)) =
       Some (Error (''VFs did not appear for '' @ ''0000:3b:00.0'' @ '': timed out waiting for '' @ Itoa 2
                    @ '' VFs on PF '' @ ''0000:3b:00.0'')) \<and>
     writes (snd (ProvisionVFs ''0000:3b:00.0'' 2 (example_host 4 [] 2000 1))) =
       [(''0000:3b:00.0'', 0), (''0000:3b:00.0'', 2)] \<and>
     GetSRIOVNumVFs (snd (ProvisionVFs ''0000:3b:00.0'' 2 (example_host 4 [] 2000 1))) ''0000:3b:00.0'' = Inr 2"
    by simp
  from ok slow example_resize_succeeds show ?thesis by (simp add: fmt_eval)
qed

section \<open>VF provisioning across the discovered PFs\<close>

lemma provisionVFs_loop_append:
  "provisionVFs_loop n (pre @ rest) h =
     (case provisionVFs_loop n pre h of
        (Some err, h') \<Rightarrow> (Some err, h')
      | (None, h') \<Rightarrow> provisionVFs_loop n rest h')"
  by (induction pre arbitrary: h) (auto simp: Let_def split: prod.splits option.splits)

lemma desired_min: "(if n > t then t else n) = min n (t :: int)"
  by simp

text \<open>
  C5 (amended). The PFs are provisioned in the order of discovery, each with the request
  clamped to its capacity, and the loop stops at the first PF whose provisioning fails:
  \<open>provisionVFs\<close> returns that error wrapped with the PCI address of the PF, in the state
  the failed attempt left, whatever PFs follow in the list. \<open>EnumerateDevices\<close> drops the
  error and publishes what an enumeration without provisioning finds in that state.
\<close>

theorem provisionVFs_stops_at_first_error:
  assumes disc: "DiscoverSRIOVPFs h = Inr (pre @ pf # post)"
    and before: "provisionVFs_loop (numVFs p) pre h = (None, h1)"
    and fails: "ProvisionVFs (PFInfo.PCIAddress pf) (min (numVFs p) (TotalVFs pf)) h1 = (Some err, h2)"
  shows "provisionVFs p h = (Some (wrap (''provision VFs on '' @ PFInfo.PCIAddress pf) err), h2) \<and>
         (0 < numVFs p \<longrightarrow> fst (EnumerateDevices p h) = fst (EnumerateDevices (p\<lparr>numVFs := 0\<rparr>) h2))"
proof -
  from fails have "provisionVFs_loop (numVFs p) (pf # post) h1 =
      (Some (wrap (''provision VFs on '' @ PFInfo.PCIAddress pf) err), h2)"
    by (auto simp: min_def Let_def)
  with before have "provisionVFs_loop (numVFs p) (pre @ pf # post) h =
      (Some (wrap (''provision VFs on '' @ PFInfo.PCIAddress pf) err), h2)"
    by (simp add: provisionVFs_loop_append)
  with disc have run: "provisionVFs p h = (Some (wrap (''provision VFs on '' @ PFInfo.PCIAddress pf) err), h2)"
    by (simp add: provisionVFs_def)
  then have "0 < numVFs p \<longrightarrow> fst (EnumerateDevices p h) = fst (EnumerateDevices (p\<lparr>numVFs := 0\<rparr>) h2)"
    by (simp add: EnumerateDevices_def Let_def split: sum.splits)
  with run show ?thesis by simp
qed

lemmas discover_eval = DiscoverSRIOVPFs_def ListIBDevices_def GetIBDeviceInfo_def List.map_filter_def
  example_info_def wrap_def

lemma example_discovered:
  "DiscoverSRIOVPFs (example_host 0 [''0000:3b:00.0''] 0 4) =
     Inr [\<lparr>PFInfo.PCIAddress = ''0000:3b:00.0'', IBDevName = ''mlx5_0'', TotalVFs = 8, CurrentVFs = 0\<rparr>,
          \<lparr>PFInfo.PCIAddress = ''0000:5e:00.0'', IBDevName = ''mlx5_1'', TotalVFs = 4, CurrentVFs = 0\<rparr>]"
  by (simp add: example_host_def discover_eval)

lemma example_first_PF_fails:
  "ProvisionVFs ''0000:3b:00.0'' 4 (example_host 0 [''0000:3b:00.0''] 0 4) =
     (Some (Error ''set sriov_numvfs to 4 for 0000:3b:00.0: permission denied''),
      (example_host 0 [''0000:3b:00.0''] 0 4)\<lparr>writes := [(''0000:3b:00.0'', 4)]\<rparr>)"
  by (simp add: example_host_def sriov_eval fmt_eval)

theorem provisionVFs_stops_at_first_error_witness:
  "provisionVFs (NewProfile ''node-1'' 4) (example_host 0 [''0000:3b:00.0''] 0 4) =
     (Some (Error ''provision VFs on 0000:3b:00.0: set sriov_numvfs to 4 for 0000:3b:00.0: permission denied''),
      (example_host 0 [''0000:3b:00.0''] 0 4)\<lparr>writes := [(''0000:3b:00.0'', 4)]\<rparr>) \<and>
   fst (EnumerateDevices (NewProfile ''node-1'' 4) (example_host 0 [''0000:3b:00.0''] 0 4)) =
   fst (EnumerateDevices ((NewProfile ''node-1'' 4)\<lparr>numVFs := 0\<rparr>)
          ((example_host 0 [''0000:3b:00.0''] 0 4)\<lparr>writes := [(''0000:3b:00.0'', 4)]\<rparr>))"
proof -
  have disc: "DiscoverSRIOVPFs (example_host 0 [''0000:3b:00.0''] 0 4) =
     Inr ([] @ \<lparr>PFInfo.PCIAddress = ''0000:3b:00.0'', IBDevName = ''mlx5_0'', TotalVFs = 8, CurrentVFs = 0\<rparr>
          # [\<lparr>PFInfo.PCIAddress = ''0000:5e:00.0'', IBDevName = ''mlx5_1'', TotalVFs = 4, CurrentVFs = 0\<rparr>])"
    using example_discovered by simp
  have before: "provisionVFs_loop (numVFs (NewProfile ''node-1'' 4)) [] (example_host 0 [''0000:3b:00.0''] 0 4) =
      (None, example_host 0 [''0000:3b:00.0''] 0 4)"
    by simp
  have fails: "ProvisionVFs
      (PFInfo.PCIAddress \<lparr>PFInfo.PCIAddress = ''0000:3b:00.0'', IBDevName = ''mlx5_0'', TotalVFs = 8, CurrentVFs = 0\<rparr>)
      (min (numVFs (NewProfile ''node-1'' 4))
           (TotalVFs \<lparr>PFInfo.PCIAddress = ''0000:3b:00.0'', IBDevName = ''mlx5_0'', TotalVFs = 8, CurrentVFs = 0\<rparr>))
      (example_host 0 [''0000:3b:00.0''] 0 4) =
     (Some (Error ''set sriov_numvfs to 4 for 0000:3b:00.0: permission denied''),
      (example_host 0 [''0000:3b:00.0''] 0 4)\<lparr>writes := [(''0000:3b:00.0'', 4)]\<rparr>)"
    using example_first_PF_fails by (simp add: NewProfile_def)
  from provisionVFs_stops_at_first_error [OF disc before fails]
  show ?thesis by (simp add: wrap_def NewProfile_def)
qed

text \<open>
  C5 as stated fails: on a host with two SR-IOV PFs that both need VFs, where the kernel
  rejects the write for the first, \<open>provisionVFs\<close> returns the error of the first PF and
  has made no write for the second, whose VF count is still 0, although provisioning the
  second PF in that state would succeed.
\<close>

theorem provisionVFs_fleet_counterexample:
  "DiscoverSRIOVPFs (example_host 0 [''0000:3b:00.0''] 0 4) =
     Inr [\<lparr>PFInfo.PCIAddress = ''0000:3b:00.0'', IBDevName = ''mlx5_0'', TotalVFs = 8, CurrentVFs = 0\<rparr>,
          \<lparr>PFInfo.PCIAddress = ''0000:5e:00.0'', IBDevName = ''mlx5_1'', TotalVFs = 4, CurrentVFs = 0\<rparr>] \<and>
   fst (provisionVFs (NewProfile ''node-1'' 4) (example_host 0 [''0000:3b:00.0''] 0 4)) =
     Some (Error ''provision VFs on 0000:3b:00.0: set sriov_numvfs to 4 for 0000:3b:00.0: permission denied'') \<and>
   writes (snd (provisionVFs (NewProfile ''node-1'' 4) (example_host 0 [''0000:3b:00.0''] 0 4))) =
     [(''0000:3b:00.0'', 4)] \<and>
   GetSRIOVNumVFs (snd (provisionVFs (NewProfile ''node-1'' 4) (example_host 0 [''0000:3b:00.0''] 0 4)))
     ''0000:5e:00.0'' = Inr 0 \<and>
   fst (ProvisionVFs ''0000:5e:00.0'' 4
          (snd (provisionVFs (NewProfile ''node-1'' 4) (example_host 0 [''0000:3b:00.0''] 0 4)))) = None"
proof -
  have run: "provisionVFs (NewProfile ''node-1'' 4) (example_host 0 [''0000:3b:00.0''] 0 4) =
     (Some (Error ''provision VFs on 0000:3b:00.0: set sriov_numvfs to 4 for 0000:3b:00.0: permission denied''),
      (example_host 0 [''0000:3b:00.0''] 0 4)\<lparr>writes := [(''0000:3b:00.0'', 4)]\<rparr>)"
    using example_discovered example_first_PF_fails
    by (simp add: provisionVFs_def NewProfile_def wrap_def)
  have second: "fst (ProvisionVFs ''0000:5e:00.0'' 4
          ((example_host 0 [''0000:3b:00.0''] 0 4)\<lparr>writes := [(''0000:3b:00.0'', 4)]\<rparr>)) = None"
    by (simp add: example_host_def sriov_eval example_virtfns_def)
  have still: "GetSRIOVNumVFs ((example_host 0 [''0000:3b:00.0''] 0 4)\<lparr>writes := [(''0000:3b:00.0'', 4)]\<rparr>)
     ''0000:5e:00.0'' = Inr 0"
    by (simp add: example_host_def GetSRIOVNumVFs_def)
  from run second still example_discovered show ?thesis by simp
qed

section \<open>Device names\<close>

lemma ldigits_decimal: "d < 10 \<Longrightarrow> of_char (ldigits ! d) = 48 + d"
proof -
  assume "d < 10"
  then have "d \<in> {0, 1, 2, 3, 4, 5, 6, 7, 8, 9}" by auto
  then show ?thesis by (auto simp: ldigits_def)
qed

lemma ldigits_not_letter: "d < 10 \<Longrightarrow> ldigits ! d \<noteq> CHR ''p'' \<and> ldigits ! d \<noteq> CHR ''-''"
proof -
  assume "d < 10"
  then have "d \<in> {0, 1, 2, 3, 4, 5, 6, 7, 8, 9}" by auto
  then show ?thesis by (auto simp: ldigits_def)
qed

lemma decimal_not_empty: "decimal n \<noteq> []"
  by (subst decimal.simps) simp

lemma decimal_chars: "c \<in> set (decimal n) \<Longrightarrow> c \<noteq> CHR ''p'' \<and> c \<noteq> CHR ''-''"
proof (induction n rule: decimal.induct)
  case (1 n)
  from "1.prems"
  have mem: "c \<in> set (if n < 10 then [ldigits ! n] else decimal (n div 10) @ [ldigits ! (n mod 10)])"
    by (subst (asm) decimal.simps)
  show ?case
  proof (cases "n < 10")
    case True
    with mem have "c = ldigits ! n" by simp
    with ldigits_not_letter [OF True] show ?thesis by simp
  next
    case False
    with mem have "c \<in> set (decimal (n div 10)) \<or> c = ldigits ! (n mod 10)"
      by auto
    then show ?thesis
    proof
      assume "c \<in> set (decimal (n div 10))"
      with "1.IH" False show ?thesis by simp
    next
      have "n mod 10 < 10" by simp
      from ldigits_not_letter [OF this] have "ldigits ! (n mod 10) \<noteq> CHR ''p'' \<and> ldigits ! (n mod 10) \<noteq> CHR ''-''" .
      moreover assume "c = ldigits ! (n mod 10)"
      ultimately show ?thesis by simp
    qed
  qed
qed

lemma decimal_value_snoc: "decimal_value (s @ [c]) = 10 * decimal_value s + (of_char c - 48)"
  by (simp add: decimal_value_def)

lemma decimal_value_decimal: "decimal_value (decimal n) = n"
proof (induction n rule: decimal.induct)
  case (1 n)
  show ?case
  proof (cases "n < 10")
    case True
    then show ?thesis by (simp add: decimal.simps[of n] decimal_value_def ldigits_decimal)
  next
    case False
    have "n mod 10 < 10" by simp
    then have "of_char (ldigits ! (n mod 10)) - 48 = n mod 10" by (simp add: ldigits_decimal)
    with False "1.IH" show ?thesis
      by (simp add: decimal.simps[of n] decimal_value_snoc)
  qed
qed

lemma decimal_inj: "decimal n = decimal m \<Longrightarrow> n = m"
  by (metis decimal_value_decimal)

lemma Itoa_chars: "c \<in> set (Itoa i) \<Longrightarrow> c \<noteq> CHR ''p''"
  by (auto simp: Itoa_def dest: decimal_chars split: if_splits)

lemma decimal_no_sign: "decimal n \<noteq> CHR ''-'' # s"
proof
  assume "decimal n = CHR ''-'' # s"
  then have "CHR ''-'' \<in> set (decimal n)" by simp
  with decimal_chars show False by blast
qed

lemma Itoa_inj: "Itoa i = Itoa j \<Longrightarrow> i = j"
proof (cases "i < 0"; cases "j < 0")
  assume "Itoa i = Itoa j" "i < 0" "j < 0"
  then have "decimal (nat (- i)) = decimal (nat (- j))" by (simp add: Itoa_def)
  from decimal_inj[OF this] \<open>i < 0\<close> \<open>j < 0\<close> show ?thesis by simp
next
  assume "Itoa i = Itoa j" "i < 0" "\<not> j < 0"
  then have "decimal (nat j) = CHR ''-'' # decimal (nat (- i))" by (simp add: Itoa_def)
  with decimal_no_sign show ?thesis by blast
next
  assume "Itoa i = Itoa j" "\<not> i < 0" "j < 0"
  then have "decimal (nat i) = CHR ''-'' # decimal (nat (- j))" by (simp add: Itoa_def)
  with decimal_no_sign show ?thesis by blast
next
  assume "Itoa i = Itoa j" "\<not> i < 0" "\<not> j < 0"
  then have "decimal (nat i) = decimal (nat j)" by (simp add: Itoa_def)
  from decimal_inj[OF this] \<open>\<not> i < 0\<close> \<open>\<not> j < 0\<close> show ?thesis by simp
qed

lemma port_suffix:
  assumes "CHR ''p'' \<notin> set d"
  shows "takeWhile (\<lambda>c. c \<noteq> CHR ''p'') (rev (a @ ''-port'' @ d)) = rev d @ ''tro''"
proof -
  have "takeWhile (\<lambda>c. c \<noteq> CHR ''p'') (rev d @ (''tro'' @ CHR ''p'' # CHR ''-'' # rev a)) =
        rev d @ takeWhile (\<lambda>c. c \<noteq> CHR ''p'') (''tro'' @ CHR ''p'' # CHR ''-'' # rev a)"
  proof (rule takeWhile_append2)
    fix x assume "x \<in> set (rev d)"
    with assms show "x \<noteq> CHR ''p''" by auto
  qed
  then show ?thesis by simp
qed

lemma device_name_inj:
  assumes "a @ ''-port'' @ Itoa i = b @ ''-port'' @ Itoa j"
  shows "a = b \<and> i = j"
proof -
  have pi: "CHR ''p'' \<notin> set (Itoa i)" and pj: "CHR ''p'' \<notin> set (Itoa j)"
    using Itoa_chars by blast+
  from assms have "takeWhile (\<lambda>c. c \<noteq> CHR ''p'') (rev (a @ ''-port'' @ Itoa i)) =
                   takeWhile (\<lambda>c. c \<noteq> CHR ''p'') (rev (b @ ''-port'' @ Itoa j))" by simp
  then have "rev (Itoa i) @ ''tro'' = rev (Itoa j) @ ''tro''"
    by (simp only: port_suffix[OF pi] port_suffix[OF pj])
  then have eq: "Itoa i = Itoa j" by simp
  from assms [unfolded eq] have "a = b" by (rule append_same_eq [THEN iffD1])
  with eq Itoa_inj show ?thesis by blast
qed

section \<open>Fusion of the two sources\<close>

lemma sysfsMap_fold_None:
  "foldl (\<lambda>m si. m(IBDeviceInfo.Name si \<mapsto> si)) m sysfsDevices name = None \<longleftrightarrow>
     m name = None \<and> name \<notin> IBDeviceInfo.Name ` set sysfsDevices"
  by (induction sysfsDevices arbitrary: m) auto

lemma sysfsMap_None: "sysfsMap sysfsDevices name = None \<longleftrightarrow> name \<notin> IBDeviceInfo.Name ` set sysfsDevices"
  by (simp add: sysfsMap_def sysfsMap_fold_None)

lemma buildEntries_append:
  "buildEntries (pre @ post) sysfsDevices = buildEntries pre sysfsDevices @ buildEntries post sysfsDevices"
  by (simp add: buildEntries_def)

lemma buildEntries_Cons:
  "buildEntries (d # post) sysfsDevices =
     map (portEntry (pciToIBDev sysfsDevices) d (sysfsMap sysfsDevices (DeviceInfo.Name d))) (Ports d)
     @ buildEntries post sysfsDevices"
  by (simp add: buildEntries_def)

text \<open>
  C6. For a device that libibverbs reports and that has no sysfs record of its name, the
  entries that fusion emits for it, at its place in the order of the devices, are one per
  reported port, in the order of the ports: each has the composite name and the port
  number of its port, type \<open>PF\<close>, an empty PCI address, NUMA node \<open>-1\<close>, no network
  interface and no parent.
\<close>

theorem buildEntries_without_sysfs_record:
  assumes "DeviceInfo.Name d \<notin> IBDeviceInfo.Name ` set sysfsDevices"
  shows "buildEntries (pre @ d # post) sysfsDevices =
           buildEntries pre sysfsDevices @
           map (\<lambda>port.
                  \<lparr>DeviceName = DeviceInfo.Name d @ ''-port'' @ Itoa (PortInfo.PortNum port),
                   IBDevName = DeviceInfo.Name d,
                   PortNum = PortInfo.PortNum port,
                   Type = ''PF'',
                   LinkSpeed = EffectiveSpeed port,
                   PortState = PortState_String (State port),
                   FirmwareVersion = DeviceInfo.FirmwareVersion d,
                   NodeGUID = NodeGUIDString d,
                   PortGUID = formatGID (GID port),
                   NUMANode = - 1,
                   PCIAddress = [],
                   ParentDevice = [],
                   NetDevices = []\<rparr>)
               (Ports d) @
           buildEntries post sysfsDevices"
proof -
  from assms have "sysfsMap sysfsDevices (DeviceInfo.Name d) = None"
    by (simp add: sysfsMap_None)
  then show ?thesis
    by (simp add: buildEntries_append buildEntries_Cons portEntry_def sysfsAugment_def Let_def)
qed

theorem buildEntries_without_sysfs_record_witness:
  "DeviceInfo.Name (example_adapter ''mlx5_7'') \<notin> IBDeviceInfo.Name ` set [example_info 0 ''mlx5_0''] \<and>
   map (\<lambda>e. (DeviceName e, DeviceEntry.PortNum e, Type e, DeviceEntry.PCIAddress e, DeviceEntry.NUMANode e,
              DeviceEntry.NetDevices e, LinkSpeed e))
     (buildEntries ([] @ example_adapter ''mlx5_7'' # []) [example_info 0 ''mlx5_0'']) =
   [(''mlx5_7-port1'', 1, ''PF'', [], - 1, [], ''100Gb/s''),
    (''mlx5_7-port2'', 2, ''PF'', [], - 1, [], ''10Gb/s'')]"
proof -
  have unmatched: "DeviceInfo.Name (example_adapter ''mlx5_7'') \<notin> IBDeviceInfo.Name ` set [example_info 0 ''mlx5_0'']"
    by (simp add: example_adapter_def example_info_def)
  from buildEntries_without_sysfs_record [OF unmatched, of "[]" "[]"] unmatched
  show ?thesis
    by (simp add: buildEntries_def example_adapter_def example_port_def
        EffectiveSpeed_def baseSpeed_def widthMultiplier_def go_int_def fmt_eval)
qed

section \<open>Uniqueness of the composite names\<close>

lemma DeviceName_portEntry:
  "DeviceName (portEntry pciIndex d si port) = DeviceInfo.Name d @ ''-port'' @ Itoa (PortInfo.PortNum port)"
  by (simp add: portEntry_def sysfsAugment_def Let_def split: option.splits)

lemma DeviceName_buildEntries:
  "map DeviceName (buildEntries ibDevices sysfsDevices) =
     concat (map (\<lambda>d. map (\<lambda>port. DeviceInfo.Name d @ ''-port'' @ Itoa (PortInfo.PortNum port)) (Ports d))
                 ibDevices)"
  by (induction ibDevices) (simp_all add: buildEntries_def DeviceName_portEntry comp_def)

lemma map_map_filter_key:
  assumes "\<And>x y. g x = Some y \<Longrightarrow> f y = k x"
  shows "map f (List.map_filter g xs) = map k (filter (\<lambda>x. g x \<noteq> None) xs)"
  using assms by (induction xs) (auto simp: List.map_filter_def)

lemma queryPort_PortNum: "queryPort dev port = Inr portInfo \<Longrightarrow> PortInfo.PortNum portInfo = port"
  by (auto simp: queryPort_def split: sum.splits)

lemma queryDevice_result:
  assumes "queryDevice dev = Inr info"
  shows "DeviceInfo.Name info = device_name dev \<and> distinct (map PortInfo.PortNum (Ports info))"
proof -
  let ?g = "\<lambda>port. case queryPort dev port of Inl err \<Rightarrow> None | Inr portInfo \<Rightarrow> Some portInfo"
  from assms obtain attr where attr: "query_device dev = Inr attr"
    and name: "DeviceInfo.Name info = device_name dev"
    and ports: "Ports info = List.map_filter ?g [1..uint (phys_port_cnt attr)]"
    by (auto simp: queryDevice_def split: if_splits sum.splits)
  have "map PortInfo.PortNum (List.map_filter ?g [1..uint (phys_port_cnt attr)]) =
        map (\<lambda>port. port) (filter (\<lambda>port. ?g port \<noteq> None) [1..uint (phys_port_cnt attr)])"
    by (rule map_map_filter_key) (auto split: sum.splits dest: queryPort_PortNum)
  with ports have "distinct (map PortInfo.PortNum (Ports info))" by simp
  with name show ?thesis by simp
qed

lemma ListDevices_result:
  assumes list: "ListDevices h = Inr ibDevices"
    and raw: "ibv_get_device_list h (writes h) = Some devList"
    and names: "distinct (map (device_name \<circ> the) (filter (\<lambda>dev. dev \<noteq> None) devList))"
  shows "distinct (map DeviceInfo.Name ibDevices) \<and>
         (\<forall>d \<in> set ibDevices. distinct (map PortInfo.PortNum (Ports d)))"
proof -
  let ?q = "\<lambda>dev. case dev of None \<Rightarrow> None
                  | Some d \<Rightarrow> (case queryDevice d of Inl err \<Rightarrow> None | Inr devInfo \<Rightarrow> Some devInfo)"
  from list raw have ib: "ibDevices = List.map_filter ?q devList"
    by (auto simp: ListDevices_def List.map_filter_def split: if_splits)
  have key: "map DeviceInfo.Name (List.map_filter ?q devList) =
             map (device_name \<circ> the) (filter (\<lambda>dev. ?q dev \<noteq> None) devList)"
    by (rule map_map_filter_key) (auto split: option.splits sum.splits dest: queryDevice_result)
  have "filter (\<lambda>dev. ?q dev \<noteq> None) devList =
        filter (\<lambda>dev. ?q dev \<noteq> None) (filter (\<lambda>dev. dev \<noteq> None) devList)"
    by (induction devList) auto
  then have "map (device_name \<circ> the) (filter (\<lambda>dev. ?q dev \<noteq> None) devList) =
        map (device_name \<circ> the) (filter (\<lambda>dev. ?q dev \<noteq> None) (filter (\<lambda>dev. dev \<noteq> None) devList))"
    by simp
  moreover from names
  have "distinct (map (device_name \<circ> the) (filter (\<lambda>dev. ?q dev \<noteq> None) (filter (\<lambda>dev. dev \<noteq> None) devList)))"
    by (rule distinct_map_filter)
  ultimately have d1: "distinct (map DeviceInfo.Name ibDevices)" using ib key by simp
  have d2: "\<forall>d \<in> set ibDevices. distinct (map PortInfo.PortNum (Ports d))"
  proof
    fix d assume "d \<in> set ibDevices"
    with ib obtain dev where "?q dev = Some d"
      by (auto simp: List.map_filter_def)
    then obtain raw_dev where "queryDevice raw_dev = Inr d"
      by (auto split: option.splits sum.splits)
    from queryDevice_result[OF this] show "distinct (map PortInfo.PortNum (Ports d))" by simp
  qed
  from d1 d2 show ?thesis by simp
qed

lemma port_names_distinct:
  assumes "distinct (map PortInfo.PortNum ports)"
  shows "distinct (map (\<lambda>port. name @ ''-port'' @ Itoa (PortInfo.PortNum port)) ports)"
proof -
  have "inj_on (\<lambda>n. name @ ''-port'' @ Itoa n) (set (map PortInfo.PortNum ports))"
    by (rule inj_onI) (use device_name_inj in blast)
  with assms have "distinct (map (\<lambda>n. name @ ''-port'' @ Itoa n) (map PortInfo.PortNum ports))"
    by (simp only: distinct_map)
  then show ?thesis by (simp add: comp_def)
qed

lemma composite_names_distinct:
  assumes "distinct (map DeviceInfo.Name ibDevices)"
    and "\<forall>d \<in> set ibDevices. distinct (map PortInfo.PortNum (Ports d))"
  shows "distinct (concat (map (\<lambda>d. map (\<lambda>port. DeviceInfo.Name d @ ''-port'' @ Itoa (PortInfo.PortNum port))
                                         (Ports d)) ibDevices))"
  using assms
proof (induction ibDevices)
  case Nil
  then show ?case by simp
next
  case (Cons d ds)
  from Cons.prems(2) have "distinct (map PortInfo.PortNum (Ports d))" by simp
  then have own: "distinct (map (\<lambda>port. DeviceInfo.Name d @ ''-port'' @ Itoa (PortInfo.PortNum port)) (Ports d))"
    by (rule port_names_distinct)
  have rest: "distinct (concat (map (\<lambda>d. map (\<lambda>port. DeviceInfo.Name d @ ''-port'' @ Itoa (PortInfo.PortNum port))
                                         (Ports d)) ds))"
    using Cons by simp
  have apart: "DeviceInfo.Name d @ ''-port'' @ Itoa (PortInfo.PortNum port) \<noteq>
               DeviceInfo.Name d' @ ''-port'' @ Itoa (PortInfo.PortNum port')"
    if "d' \<in> set ds" for d' port port'
  proof
    assume "DeviceInfo.Name d @ ''-port'' @ Itoa (PortInfo.PortNum port) =
            DeviceInfo.Name d' @ ''-port'' @ Itoa (PortInfo.PortNum port')"
    from device_name_inj[OF this] have "DeviceInfo.Name d = DeviceInfo.Name d'" by simp
    with that Cons.prems(1) show False by auto
  qed
  from own rest apart show ?case by (auto simp del: append_assoc)
qed

lemma buildEntries_names_distinct:
  assumes "distinct (map DeviceInfo.Name ibDevices)"
    and "\<forall>d \<in> set ibDevices. distinct (map PortInfo.PortNum (Ports d))"
  shows "distinct (map DeviceName (buildEntries ibDevices sysfsDevices))"
  by (simp only: DeviceName_buildEntries composite_names_distinct[OF assms])

lemma Name_publish: "Device.Name (publish e) = DeviceName e"
  by (simp add: publish_def Let_def)

lemma EnumerateDevices_cases:
  assumes "EnumerateDevices p h = (Inr resources, p', h')"
  obtains (empty) "ListDevices h' = Inr []" "resources = Map.empty" "p' = p"
  | (found) ibDevices where "ListDevices h' = Inr ibDevices" "ibDevices \<noteq> []"
      "devices p' = buildEntries ibDevices (case ListIBDevices h' of Inl err \<Rightarrow> [] | Inr ds \<Rightarrow> ds)"
      "resources = [nodeName p \<mapsto> [map publish (devices p')]]"
proof -
  define h1 where "h1 = (if numVFs p > 0 then snd (provisionVFs p h) else h)"
  from assms obtain ibDevices where list: "ListDevices h1 = Inr ibDevices"
    by (cases "ListDevices h1") (auto simp: EnumerateDevices_def Let_def h1_def)
  show thesis
  proof (cases "ibDevices = []")
    case True
    with assms list have "h' = h1" "resources = Map.empty" "p' = p"
      by (auto simp: EnumerateDevices_def Let_def h1_def)
    with list True show thesis by (auto intro: empty)
  next
    case False
    with assms list have "h' = h1"
      and "p' = p\<lparr>devices := buildEntries ibDevices (case ListIBDevices h1 of Inl err \<Rightarrow> [] | Inr ds \<Rightarrow> ds)\<rparr>"
      and "resources = [nodeName p \<mapsto> [map publish (buildEntries ibDevices
              (case ListIBDevices h1 of Inl err \<Rightarrow> [] | Inr ds \<Rightarrow> ds))]]"
      by (auto simp: EnumerateDevices_def Let_def h1_def)
    with list False show thesis by (auto intro: found)
  qed
qed

text \<open>
  C7. In the snapshot that one pass of \<open>EnumerateDevices\<close> produces, no two entries share
  the composite name \<open><adapter>-port<N>\<close>, and no two published devices share a name,
  given that the device list of libibverbs holds no adapter name twice: \<open>queryDevice\<close>
  numbers the ports of an adapter from 1 upwards, and the composite name determines the
  adapter name and the port number.
\<close>

theorem EnumerateDevices_names_unique:
  assumes run: "EnumerateDevices p h = (Inr resources, p', h')"
    and raw: "ibv_get_device_list h' (writes h') = Some devList"
    and names: "distinct (map (device_name \<circ> the) (filter (\<lambda>dev. dev \<noteq> None) devList))"
  shows "(\<forall>slices \<in> ran resources. \<forall>devs \<in> set slices. distinct (map Device.Name devs)) \<and>
         (resources \<noteq> Map.empty \<longrightarrow>
            resources = [nodeName p \<mapsto> [map publish (devices p')]] \<and>
            distinct (map DeviceName (devices p')))"
  using run
proof (cases rule: EnumerateDevices_cases)
  case empty
  then show ?thesis by simp
next
  case (found ibDevices)
  from ListDevices_result[OF found(1) raw names]
  have "distinct (map DeviceName (buildEntries ibDevices (case ListIBDevices h' of Inl err \<Rightarrow> [] | Inr ds \<Rightarrow> ds)))"
    by (simp add: buildEntries_names_distinct)
  with found(3) have d: "distinct (map DeviceName (devices p'))" by simp
  then have "distinct (map Device.Name (map publish (devices p')))"
    by (simp add: comp_def Name_publish)
  with found(4) d show ?thesis by (auto simp: ran_def split: if_splits)
qed

lemmas verbs_eval = queryDevice_def queryPort_def example_ibv_device_def List.map_filter_def
  mtuEnumToBytes_def upto.simps

lemma example_enumeration:
  "\<exists>entries.
     EnumerateDevices (NewProfile ''node-1'' 0) example_verbs_host =
       (Inr [''node-1'' \<mapsto> [map publish entries]], (NewProfile ''node-1'' 0)\<lparr>devices := entries\<rparr>,
        example_verbs_host) \<and>
     map DeviceName entries = [''mlx5_0-port1'', ''mlx5_0-port2'', ''mlx5_1-port1'', ''mlx5_1-port2'']"
proof -
  have list: "\<exists>d0 d1. ListDevices example_verbs_host = Inr [d0, d1] \<and>
      DeviceInfo.Name d0 = ''mlx5_0'' \<and> map PortInfo.PortNum (Ports d0) = [1, 2] \<and>
      DeviceInfo.Name d1 = ''mlx5_1'' \<and> map PortInfo.PortNum (Ports d1) = [1, 2]"
    by (simp add: ListDevices_def example_verbs_host_def example_host_def verbs_eval)
  then obtain d0 d1 where l: "ListDevices example_verbs_host = Inr [d0, d1]"
    and n0: "DeviceInfo.Name d0 = ''mlx5_0''" and p0: "map PortInfo.PortNum (Ports d0) = [1, 2]"
    and n1: "DeviceInfo.Name d1 = ''mlx5_1''" and p1: "map PortInfo.PortNum (Ports d1) = [1, 2]"
    by (elim exE conjE)
  let ?entries = "buildEntries [d0, d1]
                    (case ListIBDevices example_verbs_host of Inl err \<Rightarrow> [] | Inr ds \<Rightarrow> ds)"
  have names: "map (\<lambda>port. name @ ''-port'' @ Itoa (PortInfo.PortNum port)) ports =
               map (\<lambda>n. name @ ''-port'' @ Itoa n) (map PortInfo.PortNum ports)" for name ports
    by (simp add: comp_def)
  have "map DeviceName ?entries = [''mlx5_0-port1'', ''mlx5_0-port2'', ''mlx5_1-port1'', ''mlx5_1-port2'']"
    by (simp only: DeviceName_buildEntries list.map concat.simps names n0 n1 p0 p1)
       (simp add: fmt_eval)
  moreover from l have "EnumerateDevices (NewProfile ''node-1'' 0) example_verbs_host =
       (Inr [''node-1'' \<mapsto> [map publish ?entries]], (NewProfile ''node-1'' 0)\<lparr>devices := ?entries\<rparr>,
        example_verbs_host)"
    by (simp add: EnumerateDevices_def NewProfile_def Let_def)
  ultimately show ?thesis by (intro exI conjI)
qed

theorem EnumerateDevices_names_unique_witness:
  "distinct (map (device_name \<circ> the)
      (filter (\<lambda>dev. dev \<noteq> None)
         [Some (example_ibv_device ''mlx5_0''), None, Some (example_ibv_device ''mlx5_1'')])) \<and>
   map DeviceName (devices (fst (snd (EnumerateDevices (NewProfile ''node-1'' 0) example_verbs_host)))) =
     [''mlx5_0-port1'', ''mlx5_0-port2'', ''mlx5_1-port1'', ''mlx5_1-port2''] \<and>
   distinct (map DeviceName (devices (fst (snd (EnumerateDevices (NewProfile ''node-1'' 0) example_verbs_host)))))"
proof -
  from example_enumeration obtain entries where
    run: "EnumerateDevices (NewProfile ''node-1'' 0) example_verbs_host =
       (Inr [''node-1'' \<mapsto> [map publish entries]], (NewProfile ''node-1'' 0)\<lparr>devices := entries\<rparr>,
        example_verbs_host)"
    and listed: "map DeviceName entries = [''mlx5_0-port1'', ''mlx5_0-port2'', ''mlx5_1-port1'', ''mlx5_1-port2'']"
    by (elim exE conjE)
  have raw: "ibv_get_device_list example_verbs_host (writes example_verbs_host) =
      Some [Some (example_ibv_device ''mlx5_0''), None, Some (example_ibv_device ''mlx5_1'')]"
    by (simp add: example_verbs_host_def)
  have names: "distinct (map (device_name \<circ> the)
      (filter (\<lambda>dev. dev \<noteq> None)
         [Some (example_ibv_device ''mlx5_0''), None, Some (example_ibv_device ''mlx5_1'')]))"
    by (simp add: example_ibv_device_def)
  have nonempty: "[''node-1'' \<mapsto> [map publish entries]] \<noteq> Map.empty"
    by simp
  from EnumerateDevices_names_unique [OF run raw names, THEN conjunct2, THEN mp, OF nonempty]
  have "distinct (map DeviceName (devices ((NewProfile ''node-1'' 0)\<lparr>devices := entries\<rparr>)))"
    by (rule conjunct2)
  with run listed names show ?thesis by simp
qed

section \<open>Container edits\<close>

lemma HasPrefix_iff: "HasPrefix s pre \<longleftrightarrow> (\<exists>b. s = pre @ b)"
proof
  assume "HasPrefix s pre"
  then have "s = pre @ drop (length pre) s"
    by (metis HasPrefix_def append_take_drop_id)
  then show "\<exists>b. s = pre @ b" ..
next
  assume "\<exists>b. s = pre @ b"
  then show "HasPrefix s pre" by (auto simp: HasPrefix_def)
qed

lemma Index_Some:
  "Index s sep = Some i \<Longrightarrow> s = take i s @ sep @ drop (i + length sep) s"
proof (induction s arbitrary: i)
  case Nil
  then show ?case by (simp split: if_splits)
next
  case (Cons c s)
  show ?case
  proof (cases "HasPrefix (c # s) sep")
    case True
    with Cons.prems have "i = 0" by simp
    moreover from True have "c # s = sep @ drop (length sep) (c # s)"
      by (metis HasPrefix_def append_take_drop_id)
    ultimately show ?thesis by simp
  next
    case False
    with Cons.prems obtain i' where i: "i = Suc i'" and "Index s sep = Some i'" by auto
    from Cons.IH[OF this(2)] have "s = take i' s @ sep @ drop (i' + length sep) s" .
    then have "c # s = (c # take i' s) @ sep @ drop (i' + length sep) s" by simp
    with i show ?thesis by simp
  qed
qed

lemma Index_first:
  "s = a @ sep @ b \<Longrightarrow> \<exists>i. Index s sep = Some i \<and> i \<le> length a"
proof (induction s arbitrary: a)
  case Nil
  then show ?case by simp
next
  case (Cons c s)
  show ?case
  proof (cases "HasPrefix (c # s) sep")
    case True
    then show ?thesis by simp
  next
    case False
    have "a \<noteq> []"
    proof
      assume "a = []"
      with Cons.prems have "c # s = sep @ b" by simp
      with False show False by (simp add: HasPrefix_iff)
    qed
    then obtain a' where a: "a = c # a'" and "s = a' @ sep @ b"
      using Cons.prems by (cases a) auto
    from Cons.IH[OF this(2)] obtain i where "Index s sep = Some i" "i \<le> length a'" by blast
    with False a show ?thesis by simp
  qed
qed

lemma Index_None: "Index s sep = None \<longleftrightarrow> \<not> (\<exists>a b. s = a @ sep @ b)"
proof
  assume none: "Index s sep = None"
  show "\<not> (\<exists>a b. s = a @ sep @ b)"
  proof
    assume "\<exists>a b. s = a @ sep @ b"
    then obtain a b where "s = a @ sep @ b" by blast
    from Index_first[OF this] none show False by simp
  qed
next
  assume no: "\<not> (\<exists>a b. s = a @ sep @ b)"
  show "Index s sep = None"
  proof (rule ccontr)
    assume "Index s sep \<noteq> None"
    then obtain i where "Index s sep = Some i" by blast
    from Index_Some[OF this] no show False by blast
  qed
qed

text \<open>
  The split at the first occurrence: a string of the form \<open>a @ sep @ b\<close> in which \<open>sep\<close>
  does not occur further to the left is split into \<open>a\<close> and \<open>b\<close>.
\<close>

lemma SplitN2_first:
  assumes form: "s = a @ sep @ b"
    and first: "\<forall>a' b'. s = a' @ sep @ b' \<longrightarrow> length a \<le> length a'"
  shows "SplitN2 s sep = [a, b]"
proof -
  from Index_first[OF form] obtain i where i: "Index s sep = Some i" and le: "i \<le> length a" by blast
  from Index_Some[OF i] first have "length a \<le> length (take i s)" by blast
  with le have "i = length a" by simp
  with form i show ?thesis by (simp add: SplitN2_def)
qed

lemma Index_le: "Index s sep = Some i \<Longrightarrow> i \<le> length s"
proof (induction s arbitrary: i)
  case Nil
  then show ?case by (simp split: if_splits)
next
  case (Cons c s)
  show ?case
  proof (cases "HasPrefix (c # s) sep")
    case True
    with Cons.prems show ?thesis by simp
  next
    case False
    with Cons.prems obtain i' where "i = Suc i'" "Index s sep = Some i'" by auto
    with Cons.IH show ?thesis by simp
  qed
qed

lemma SplitN2_parsed:
  assumes "\<exists>a b. s = a @ sep @ b"
  shows "\<exists>a b. s = a @ sep @ b \<and> (\<forall>a' b'. s = a' @ sep @ b' \<longrightarrow> length a \<le> length a') \<and>
               SplitN2 s sep = [a, b]"
proof -
  have "Index s sep \<noteq> None" using assms by (simp only: Index_None not_not)
  then obtain i where i: "Index s sep = Some i" by (cases "Index s sep") simp_all
  define a where "a = take i s"
  define b where "b = drop (i + length sep) s"
  from Index_Some[OF i] have form: "s = a @ sep @ b" by (simp only: a_def b_def)
  from Index_le[OF i] have len: "length a = i" by (simp add: a_def)
  have first: "\<forall>a' b'. s = a' @ sep @ b' \<longrightarrow> length a \<le> length a'"
  proof (intro allI impI)
    fix a' b' assume "s = a' @ sep @ b'"
    from Index_first[OF this] obtain k where "Index s sep = Some k" "k \<le> length a'" by (elim exE conjE)
    with i len show "length a \<le> length a'" by simp
  qed
  have split: "SplitN2 s sep = [a, b]" by (simp add: SplitN2_def i a_def b_def)
  from form first split show ?thesis by (intro exI conjI)
qed

lemma SplitN2_unparsed:
  assumes "\<not> (\<exists>a b. s = a @ sep @ b)"
  shows "SplitN2 s sep = [s]"
proof -
  from assms have "Index s sep = None" by (rule Index_None [THEN iffD2])
  then show ?thesis by (simp add: SplitN2_def)
qed

text \<open>The environment entries that the configuration adds for the device at index \<open>i\<close>.\<close>

lemma deviceEdits_split:
  "SplitN2 device ''-port'' = [a, n] \<Longrightarrow>
   deviceEdits config i device =
     \<lparr>Env = [''IB_DEVICE_'' @ Itoa (int i) @ ''='' @ device,
             ''IB_DEVICE_'' @ Itoa (int i) @ ''_IBDEV='' @ a,
             ''IB_DEVICE_'' @ Itoa (int i) @ ''_PORT='' @ n]
            @ (case Pkey config of
                 None \<Rightarrow> []
               | Some pkey \<Rightarrow> [''IB_DEVICE_'' @ Itoa (int i) @ ''_PKEY=0x''
                                @ zero_pad 4 (hexadecimal True (unat pkey))])
            @ (case TrafficClass config of
                 None \<Rightarrow> []
               | Some tc \<Rightarrow> [''IB_DEVICE_'' @ Itoa (int i) @ ''_TRAFFIC_CLASS='' @ Itoa (uint tc)])
            @ (case MTU config of
                 None \<Rightarrow> []
               | Some mtu \<Rightarrow> [''IB_DEVICE_'' @ Itoa (int i) @ ''_MTU='' @ Itoa mtu]),
      Hooks = [\<lparr>HookName = ''createRuntime'', Path = ''/usr/bin/dra-example-kubeletplugin'',
                Args = [''/usr/bin/dra-example-kubeletplugin'', ''move-netdev'', ''--ib-dev'', a]\<rparr>]\<rparr>"
  by (simp add: deviceEdits_def Let_def split: option.splits)

lemma deviceEdits_whole:
  "SplitN2 device ''-port'' = [device] \<Longrightarrow>
   deviceEdits config i device =
     \<lparr>Env = [''IB_DEVICE_'' @ Itoa (int i) @ ''='' @ device]
            @ (case Pkey config of
                 None \<Rightarrow> []
               | Some pkey \<Rightarrow> [''IB_DEVICE_'' @ Itoa (int i) @ ''_PKEY=0x''
                                @ zero_pad 4 (hexadecimal True (unat pkey))])
            @ (case TrafficClass config of
                 None \<Rightarrow> []
               | Some tc \<Rightarrow> [''IB_DEVICE_'' @ Itoa (int i) @ ''_TRAFFIC_CLASS='' @ Itoa (uint tc)])
            @ (case MTU config of
                 None \<Rightarrow> []
               | Some mtu \<Rightarrow> [''IB_DEVICE_'' @ Itoa (int i) @ ''_MTU='' @ Itoa mtu]),
      Hooks = []\<rparr>"
  by (simp add: deviceEdits_def Let_def split: option.splits)

lemma applyIbConfig_loop_other:
  "dev \<notin> Device ` set results \<Longrightarrow> applyIbConfig_loop config k results m dev = m dev"
  by (induction results arbitrary: k m) auto

lemma applyIbConfig_loop_dom:
  "dom (applyIbConfig_loop config k results m) = dom m \<union> Device ` set results"
  by (induction results arbitrary: k m) auto

lemma applyIbConfig_loop_last:
  assumes "i < length results" and "Device (results ! i) = dev"
    and "\<forall>j. i < j \<and> j < length results \<longrightarrow> Device (results ! j) \<noteq> dev"
  shows "applyIbConfig_loop config k results m dev = Some (deviceEdits config (k + i) dev)"
  using assms
proof (induction results arbitrary: k m i)
  case Nil
  then show ?case by simp
next
  case (Cons r rs)
  show ?case
  proof (cases i)
    case 0
    have "dev \<notin> Device ` set rs"
    proof
      assume "dev \<in> Device ` set rs"
      then obtain j where "j < length rs" "Device (rs ! j) = dev"
        by (auto simp: in_set_conv_nth)
      with Cons.prems(3) 0 show False by (auto dest: spec[of _ "Suc j"])
    qed
    with 0 Cons.prems(2) show ?thesis by (simp add: applyIbConfig_loop_other)
  next
    case (Suc i')
    with Cons.prems have "i' < length rs" "Device (rs ! i') = dev"
      and "\<forall>j. i' < j \<and> j < length rs \<longrightarrow> Device (rs ! j) \<noteq> dev"
      by (auto dest: spec[of _ "Suc _"])
    from Cons.IH[OF this] Suc show ?thesis by simp
  qed
qed

lemma applyIbConfig_valid:
  "Validate config = None \<Longrightarrow>
   applyIbConfig (Some config) results = Inr (applyIbConfig_loop config 0 results Map.empty)"
  by (simp add: applyIbConfig_def Normalize_def)

lemma deviceEdits_parsed:
  assumes "SplitN2 device ''-port'' = [a, n]"
  shows "deviceEdits config i device =
     \<lparr>Env = [''IB_DEVICE_'' @ Itoa (int i) @ ''='' @ device,
             ''IB_DEVICE_'' @ Itoa (int i) @ ''_IBDEV='' @ a,
             ''IB_DEVICE_'' @ Itoa (int i) @ ''_PORT='' @ n] @ spec_config_env config i,
      Hooks = [spec_hook a]\<rparr>"
  by (simp only: deviceEdits_split[OF assms] spec_config_env_def spec_hook_def)

lemma deviceEdits_unparsed:
  assumes "SplitN2 device ''-port'' = [device]"
  shows "deviceEdits config i device =
     \<lparr>Env = [''IB_DEVICE_'' @ Itoa (int i) @ ''='' @ device] @ spec_config_env config i, Hooks = []\<rparr>"
  by (simp only: deviceEdits_whole[OF assms] spec_config_env_def)

text \<open>
  C8. For a valid configuration and a list of allocation results, \<open>applyIbConfig\<close> returns
  edits for exactly the devices named. The edits of a device (those of its last result,
  at index \<open>i\<close>) begin with the positional variable; when the name has the form
  \<open><adapter>-port<N>\<close>, split at the first \<open>-port\<close>, the adapter-name and port-number
  variables follow and there is exactly one \<open>createRuntime\<close> hook, which carries the
  adapter name; otherwise there are neither these variables nor a hook. In both cases the
  partition key as \<open>0x%04X\<close>, the traffic class and the MTU in decimal follow, each only
  if set.
\<close>

theorem applyIbConfig_edits:
  assumes valid: "Validate config = None"
    and i: "i < length results" and dev: "Device (results ! i) = dev"
    and last: "\<forall>j. i < j \<and> j < length results \<longrightarrow> Device (results ! j) \<noteq> dev"
  shows "\<exists>m. applyIbConfig (Some config) results = Inr m \<and> dom m = Device ` set results \<and>
     (if \<exists>a n. dev = a @ ''-port'' @ n
      then \<exists>a n. dev = a @ ''-port'' @ n \<and>
             (\<forall>a' n'. dev = a' @ ''-port'' @ n' \<longrightarrow> length a \<le> length a') \<and>
             m dev = Some \<lparr>Env = [''IB_DEVICE_'' @ Itoa (int i) @ ''='' @ dev,
                                   ''IB_DEVICE_'' @ Itoa (int i) @ ''_IBDEV='' @ a,
                                   ''IB_DEVICE_'' @ Itoa (int i) @ ''_PORT='' @ n] @ spec_config_env config i,
                            Hooks = [spec_hook a]\<rparr>
      else m dev = Some \<lparr>Env = [''IB_DEVICE_'' @ Itoa (int i) @ ''='' @ dev] @ spec_config_env config i,
                         Hooks = []\<rparr>)"
proof -
  let ?m = "applyIbConfig_loop config 0 results Map.empty"
  have run: "applyIbConfig (Some config) results = Inr ?m"
    by (rule applyIbConfig_valid[OF valid])
  have dom: "dom ?m = Device ` set results"
    by (simp add: applyIbConfig_loop_dom)
  from applyIbConfig_loop_last[OF i dev last, of config 0 Map.empty]
  have at: "?m dev = Some (deviceEdits config i dev)" by simp
  have shape: "if \<exists>a n. dev = a @ ''-port'' @ n
      then \<exists>a n. dev = a @ ''-port'' @ n \<and>
             (\<forall>a' n'. dev = a' @ ''-port'' @ n' \<longrightarrow> length a \<le> length a') \<and>
             ?m dev = Some \<lparr>Env = [''IB_DEVICE_'' @ Itoa (int i) @ ''='' @ dev,
                                   ''IB_DEVICE_'' @ Itoa (int i) @ ''_IBDEV='' @ a,
                                   ''IB_DEVICE_'' @ Itoa (int i) @ ''_PORT='' @ n] @ spec_config_env config i,
                            Hooks = [spec_hook a]\<rparr>
      else ?m dev = Some \<lparr>Env = [''IB_DEVICE_'' @ Itoa (int i) @ ''='' @ dev] @ spec_config_env config i,
                         Hooks = []\<rparr>"
  proof (cases "\<exists>a n. dev = a @ ''-port'' @ n")
    case True
    from SplitN2_parsed[OF True] obtain a n where form: "dev = a @ ''-port'' @ n"
      and first: "\<forall>a' n'. dev = a' @ ''-port'' @ n' \<longrightarrow> length a \<le> length a'"
      and split: "SplitN2 dev ''-port'' = [a, n]"
      by (elim exE conjE)
    from at deviceEdits_parsed[OF split, of config i]
    have "?m dev = Some \<lparr>Env = [''IB_DEVICE_'' @ Itoa (int i) @ ''='' @ dev,
                                   ''IB_DEVICE_'' @ Itoa (int i) @ ''_IBDEV='' @ a,
                                   ''IB_DEVICE_'' @ Itoa (int i) @ ''_PORT='' @ n] @ spec_config_env config i,
                            Hooks = [spec_hook a]\<rparr>"
      by (simp only:)
    with form first have "\<exists>a n. dev = a @ ''-port'' @ n \<and>
             (\<forall>a' n'. dev = a' @ ''-port'' @ n' \<longrightarrow> length a \<le> length a') \<and>
             ?m dev = Some \<lparr>Env = [''IB_DEVICE_'' @ Itoa (int i) @ ''='' @ dev,
                                   ''IB_DEVICE_'' @ Itoa (int i) @ ''_IBDEV='' @ a,
                                   ''IB_DEVICE_'' @ Itoa (int i) @ ''_PORT='' @ n] @ spec_config_env config i,
                            Hooks = [spec_hook a]\<rparr>"
      by (intro exI conjI)
    with True show ?thesis by (simp only: if_True)
  next
    case False
    from SplitN2_unparsed[OF False] have split: "SplitN2 dev ''-port'' = [dev]" .
    from at deviceEdits_unparsed[OF split, of config i]
    have "?m dev = Some \<lparr>Env = [''IB_DEVICE_'' @ Itoa (int i) @ ''='' @ dev] @ spec_config_env config i,
                         Hooks = []\<rparr>"
      by (simp only:)
    with False show ?thesis by (simp only: if_False)
  qed
  from run dom shape show ?thesis by (intro exI conjI)
qed

lemma first_by_Index:
  assumes "Index s sep = Some (length a)"
  shows "\<forall>a' b'. s = a' @ sep @ b' \<longrightarrow> length a \<le> length a'"
proof (intro allI impI)
  fix a' b' assume "s = a' @ sep @ b'"
  from Index_first[OF this] obtain k where "Index s sep = Some k" "k \<le> length a'" by (elim exE conjE)
  with assms show "length a \<le> length a'" by simp
qed

lemma first_split_unique:
  assumes "s = a @ sep @ b" and "\<forall>a' b'. s = a' @ sep @ b' \<longrightarrow> length a \<le> length a'"
    and "s = a0 @ sep @ b0" and "\<forall>a' b'. s = a' @ sep @ b' \<longrightarrow> length a0 \<le> length a'"
  shows "a = a0 \<and> b = b0"
proof -
  from assms(2) assms(3) have "length a \<le> length a0" by blast
  moreover from assms(4) assms(1) have "length a0 \<le> length a" by blast
  ultimately have len: "length a = length a0" by simp
  from assms(1) assms(3) have "a @ (sep @ b) = a0 @ (sep @ b0)" by simp
  moreover from len have "(a @ (sep @ b) = a0 @ (sep @ b0)) = (a = a0 \<and> sep @ b = sep @ b0)"
    by (rule append_eq_append_conv [OF disjI1])
  ultimately have "a = a0 \<and> sep @ b = sep @ b0" by (rule iffD1 [rotated])
  then show ?thesis by simp
qed

lemma example_parsed: "Index ''mlx5_1-port2'' ''-port'' = Some (length ''mlx5_1'')"
  by (simp add: HasPrefix_def)

lemma example_unparsed: "Index ''gpu0'' ''-port'' = None"
  by (simp add: HasPrefix_def)

lemma example_config_valid: "Validate example_config = None"
  by (simp add: Validate_def example_config_def IbMTU_Validate_def)

lemma example_config_env:
  "spec_config_env example_config 0 = [''IB_DEVICE_0_PKEY=0x8001'', ''IB_DEVICE_0_TRAFFIC_CLASS=64'', ''IB_DEVICE_0_MTU=2048'']"
  "spec_config_env example_config (Suc 0) = [''IB_DEVICE_1_PKEY=0x8001'', ''IB_DEVICE_1_TRAFFIC_CLASS=64'', ''IB_DEVICE_1_MTU=2048'']"
  by (simp_all add: spec_config_env_def example_config_def fmt_eval)

theorem applyIbConfig_edits_witness:
  "Validate example_config = None \<and>
   (\<exists>m. applyIbConfig (Some example_config) [example_result ''mlx5_1-port2'', example_result ''gpu0''] = Inr m \<and>
        dom m = {''mlx5_1-port2'', ''gpu0''} \<and>
        m ''mlx5_1-port2'' =
          Some \<lparr>Env = [''IB_DEVICE_0=mlx5_1-port2'', ''IB_DEVICE_0_IBDEV=mlx5_1'', ''IB_DEVICE_0_PORT=2'',
                       ''IB_DEVICE_0_PKEY=0x8001'', ''IB_DEVICE_0_TRAFFIC_CLASS=64'', ''IB_DEVICE_0_MTU=2048''],
                Hooks = [spec_hook ''mlx5_1'']\<rparr> \<and>
        m ''gpu0'' =
          Some \<lparr>Env = [''IB_DEVICE_1=gpu0'', ''IB_DEVICE_1_PKEY=0x8001'', ''IB_DEVICE_1_TRAFFIC_CLASS=64'',
                       ''IB_DEVICE_1_MTU=2048''],
                Hooks = []\<rparr>)"
proof -
  let ?rs = "[example_result ''mlx5_1-port2'', example_result ''gpu0'']"
  have i0: "0 < length ?rs" and i1: "Suc 0 < length ?rs" by simp_all
  have d0: "Device (?rs ! 0) = ''mlx5_1-port2''" and d1: "Device (?rs ! Suc 0) = ''gpu0''"
    by (simp_all add: example_result_def)
  have l0: "\<forall>j. 0 < j \<and> j < length ?rs \<longrightarrow> Device (?rs ! j) \<noteq> ''mlx5_1-port2''"
    by (auto simp: example_result_def less_Suc_eq)
  have l1: "\<forall>j. Suc 0 < j \<and> j < length ?rs \<longrightarrow> Device (?rs ! j) \<noteq> ''gpu0''"
    by auto
  have form: "''mlx5_1-port2'' = ''mlx5_1'' @ ''-port'' @ ''2''" by simp
  have parses: "\<exists>a n. ''mlx5_1-port2'' = a @ ''-port'' @ n"
    using form by (intro exI)
  have unparsed: "\<not> (\<exists>a n. ''gpu0'' = a @ ''-port'' @ n)"
    using example_unparsed by (rule Index_None [THEN iffD1])
  from applyIbConfig_edits[OF example_config_valid i0 d0 l0]
  obtain m where run: "applyIbConfig (Some example_config) ?rs = Inr m"
    and dom: "dom m = Device ` set ?rs"
    and shape0: "if \<exists>a n. ''mlx5_1-port2'' = a @ ''-port'' @ n
      then \<exists>a n. ''mlx5_1-port2'' = a @ ''-port'' @ n \<and>
             (\<forall>a' n'. ''mlx5_1-port2'' = a' @ ''-port'' @ n' \<longrightarrow> length a \<le> length a') \<and>
             m ''mlx5_1-port2'' =
               Some \<lparr>Env = [''IB_DEVICE_'' @ Itoa (int 0) @ ''='' @ ''mlx5_1-port2'',
                            ''IB_DEVICE_'' @ Itoa (int 0) @ ''_IBDEV='' @ a,
                            ''IB_DEVICE_'' @ Itoa (int 0) @ ''_PORT='' @ n] @ spec_config_env example_config 0,
                     Hooks = [spec_hook a]\<rparr>
      else m ''mlx5_1-port2'' =
             Some \<lparr>Env = [''IB_DEVICE_'' @ Itoa (int 0) @ ''='' @ ''mlx5_1-port2'']
                          @ spec_config_env example_config 0,
                   Hooks = []\<rparr>"
    by (elim exE conjE)
  from shape0 parses
  have "\<exists>a n. ''mlx5_1-port2'' = a @ ''-port'' @ n \<and>
             (\<forall>a' n'. ''mlx5_1-port2'' = a' @ ''-port'' @ n' \<longrightarrow> length a \<le> length a') \<and>
             m ''mlx5_1-port2'' =
               Some \<lparr>Env = [''IB_DEVICE_'' @ Itoa (int 0) @ ''='' @ ''mlx5_1-port2'',
                            ''IB_DEVICE_'' @ Itoa (int 0) @ ''_IBDEV='' @ a,
                            ''IB_DEVICE_'' @ Itoa (int 0) @ ''_PORT='' @ n] @ spec_config_env example_config 0,
                     Hooks = [spec_hook a]\<rparr>"
    by (rule if_P [THEN iffD1, rotated])
  then obtain a n where an: "''mlx5_1-port2'' = a @ ''-port'' @ n"
    and first: "\<forall>a' n'. ''mlx5_1-port2'' = a' @ ''-port'' @ n' \<longrightarrow> length a \<le> length a'"
    and at0: "m ''mlx5_1-port2'' =
        Some \<lparr>Env = [''IB_DEVICE_'' @ Itoa (int 0) @ ''='' @ ''mlx5_1-port2'',
                     ''IB_DEVICE_'' @ Itoa (int 0) @ ''_IBDEV='' @ a,
                     ''IB_DEVICE_'' @ Itoa (int 0) @ ''_PORT='' @ n] @ spec_config_env example_config 0,
              Hooks = [spec_hook a]\<rparr>"
    by (elim exE conjE)
  from first_split_unique[OF an first form first_by_Index[OF example_parsed]]
  have a: "a = ''mlx5_1''" and n: "n = ''2''" by simp_all
  from applyIbConfig_edits[OF example_config_valid i1 d1 l1]
  obtain m' where run': "applyIbConfig (Some example_config) ?rs = Inr m'"
    and shape1: "if \<exists>a n. ''gpu0'' = a @ ''-port'' @ n
      then \<exists>a n. ''gpu0'' = a @ ''-port'' @ n \<and>
             (\<forall>a' n'. ''gpu0'' = a' @ ''-port'' @ n' \<longrightarrow> length a \<le> length a') \<and>
             m' ''gpu0'' =
               Some \<lparr>Env = [''IB_DEVICE_'' @ Itoa (int (Suc 0)) @ ''='' @ ''gpu0'',
                            ''IB_DEVICE_'' @ Itoa (int (Suc 0)) @ ''_IBDEV='' @ a,
                            ''IB_DEVICE_'' @ Itoa (int (Suc 0)) @ ''_PORT='' @ n]
                           @ spec_config_env example_config (Suc 0),
                     Hooks = [spec_hook a]\<rparr>
      else m' ''gpu0'' =
             Some \<lparr>Env = [''IB_DEVICE_'' @ Itoa (int (Suc 0)) @ ''='' @ ''gpu0'']
                          @ spec_config_env example_config (Suc 0),
                   Hooks = []\<rparr>"
    by (elim exE conjE)
  from shape1 unparsed
  have at1': "m' ''gpu0'' =
        Some \<lparr>Env = [''IB_DEVICE_'' @ Itoa (int (Suc 0)) @ ''='' @ ''gpu0'']
                     @ spec_config_env example_config (Suc 0),
              Hooks = []\<rparr>"
    by (rule if_not_P [THEN iffD1, rotated])
  from run run' have "m' = m" by simp
  with at1' have at1: "m ''gpu0'' =
        Some \<lparr>Env = [''IB_DEVICE_'' @ Itoa (int (Suc 0)) @ ''='' @ ''gpu0'']
                     @ spec_config_env example_config (Suc 0),
              Hooks = []\<rparr>" by simp
  have c0: "m ''mlx5_1-port2'' =
          Some \<lparr>Env = [''IB_DEVICE_0=mlx5_1-port2'', ''IB_DEVICE_0_IBDEV=mlx5_1'', ''IB_DEVICE_0_PORT=2'',
                       ''IB_DEVICE_0_PKEY=0x8001'', ''IB_DEVICE_0_TRAFFIC_CLASS=64'', ''IB_DEVICE_0_MTU=2048''],
                Hooks = [spec_hook ''mlx5_1'']\<rparr>"
    using at0 by (simp add: a n example_config_env fmt_eval)
  have c1: "m ''gpu0'' =
          Some \<lparr>Env = [''IB_DEVICE_1=gpu0'', ''IB_DEVICE_1_PKEY=0x8001'', ''IB_DEVICE_1_TRAFFIC_CLASS=64'',
                       ''IB_DEVICE_1_MTU=2048''],
                Hooks = []\<rparr>"
    using at1 by (simp add: example_config_env fmt_eval)
  from dom have dm: "dom m = {''mlx5_1-port2'', ''gpu0''}"
    by (simp add: example_result_def)
  from run dm c0 c1 have "\<exists>m. applyIbConfig (Some example_config) ?rs = Inr m \<and>
        dom m = {''mlx5_1-port2'', ''gpu0''} \<and>
        m ''mlx5_1-port2'' =
          Some \<lparr>Env = [''IB_DEVICE_0=mlx5_1-port2'', ''IB_DEVICE_0_IBDEV=mlx5_1'', ''IB_DEVICE_0_PORT=2'',
                       ''IB_DEVICE_0_PKEY=0x8001'', ''IB_DEVICE_0_TRAFFIC_CLASS=64'', ''IB_DEVICE_0_MTU=2048''],
                Hooks = [spec_hook ''mlx5_1'']\<rparr> \<and>
        m ''gpu0'' =
          Some \<lparr>Env = [''IB_DEVICE_1=gpu0'', ''IB_DEVICE_1_PKEY=0x8001'', ''IB_DEVICE_1_TRAFFIC_CLASS=64'',
                       ''IB_DEVICE_1_MTU=2048''],
                Hooks = []\<rparr>"
    by (intro exI conjI)
  with example_config_valid show ?thesis by (intro conjI)
qed

text \<open>
  C10. The suffix after \<open>-port\<close> is not checked. For a valid configuration and a result
  whose device name is \<open>a @ ''-port'' @ n\<close> with no occurrence of \<open>-port\<close> further to the
  left, whatever \<open>n\<close> is (empty, not a number), the edits of the device hold the
  adapter-name variable with \<open>a\<close>, the port-number variable with the raw \<open>n\<close>, and the
  hook with the argument \<open>a\<close>.
\<close>

theorem applyIbConfig_suffix_unchecked:
  assumes valid: "Validate config = None"
    and i: "i < length results" and dev: "Device (results ! i) = a @ ''-port'' @ n"
    and first: "\<forall>a' n'. a @ ''-port'' @ n = a' @ ''-port'' @ n' \<longrightarrow> length a \<le> length a'"
    and last: "\<forall>j. i < j \<and> j < length results \<longrightarrow> Device (results ! j) \<noteq> a @ ''-port'' @ n"
  shows "\<exists>m. applyIbConfig (Some config) results = Inr m \<and>
           m (a @ ''-port'' @ n) =
             Some \<lparr>Env = [''IB_DEVICE_'' @ Itoa (int i) @ ''='' @ a @ ''-port'' @ n,
                          ''IB_DEVICE_'' @ Itoa (int i) @ ''_IBDEV='' @ a,
                          ''IB_DEVICE_'' @ Itoa (int i) @ ''_PORT='' @ n] @ spec_config_env config i,
                   Hooks = [spec_hook a]\<rparr>"
proof -
  let ?m = "applyIbConfig_loop config 0 results Map.empty"
  have run: "applyIbConfig (Some config) results = Inr ?m"
    by (rule applyIbConfig_valid[OF valid])
  from applyIbConfig_loop_last[OF i dev last, of config 0 Map.empty]
  have at: "?m (a @ ''-port'' @ n) = Some (deviceEdits config i (a @ ''-port'' @ n))" by simp
  have split: "SplitN2 (a @ ''-port'' @ n) ''-port'' = [a, n]"
    by (rule SplitN2_first[OF refl first])
  from at deviceEdits_parsed[OF split, of config i]
  have "?m (a @ ''-port'' @ n) =
             Some \<lparr>Env = [''IB_DEVICE_'' @ Itoa (int i) @ ''='' @ a @ ''-port'' @ n,
                          ''IB_DEVICE_'' @ Itoa (int i) @ ''_IBDEV='' @ a,
                          ''IB_DEVICE_'' @ Itoa (int i) @ ''_PORT='' @ n] @ spec_config_env config i,
                   Hooks = [spec_hook a]\<rparr>"
    by (simp only:)
  with run show ?thesis by (intro exI conjI)
qed

lemma example_empty_suffix: "Index (''foo'' @ ''-port'' @ []) ''-port'' = Some (length ''foo'')"
  by (simp add: HasPrefix_def)

lemma example_text_suffix: "Index (''a'' @ ''-port'' @ ''xyz'') ''-port'' = Some (length ''a'')"
  by (simp add: HasPrefix_def)

lemma default_config_valid: "Validate DefaultIbConfig = None"
  by (simp add: Validate_def DefaultIbConfig_def)

lemma default_config_env: "spec_config_env DefaultIbConfig i = []"
  by (simp add: spec_config_env_def DefaultIbConfig_def)

theorem applyIbConfig_suffix_unchecked_witness:
  "\<exists>m. applyIbConfig (Some DefaultIbConfig) [example_result ''foo-port'', example_result ''a-portxyz''] = Inr m \<and>
        m ''foo-port'' =
          Some \<lparr>Env = [''IB_DEVICE_0=foo-port'', ''IB_DEVICE_0_IBDEV=foo'', ''IB_DEVICE_0_PORT=''],
                Hooks = [spec_hook ''foo'']\<rparr> \<and>
        m ''a-portxyz'' =
          Some \<lparr>Env = [''IB_DEVICE_1=a-portxyz'', ''IB_DEVICE_1_IBDEV=a'', ''IB_DEVICE_1_PORT=xyz''],
                Hooks = [spec_hook ''a'']\<rparr>"
proof -
  let ?rs = "[example_result ''foo-port'', example_result ''a-portxyz'']"
  have i0: "0 < length ?rs" and i1: "Suc 0 < length ?rs" by simp_all
  have d0: "Device (?rs ! 0) = ''foo'' @ ''-port'' @ []"
    and d1: "Device (?rs ! Suc 0) = ''a'' @ ''-port'' @ ''xyz''"
    by (simp_all add: example_result_def)
  have l0: "\<forall>j. 0 < j \<and> j < length ?rs \<longrightarrow> Device (?rs ! j) \<noteq> ''foo'' @ ''-port'' @ []"
    by (auto simp: example_result_def less_Suc_eq)
  have l1: "\<forall>j. Suc 0 < j \<and> j < length ?rs \<longrightarrow> Device (?rs ! j) \<noteq> ''a'' @ ''-port'' @ ''xyz''"
    by auto
  note f0 = first_by_Index[OF example_empty_suffix]
  note f1 = first_by_Index[OF example_text_suffix]
  from applyIbConfig_suffix_unchecked[OF default_config_valid i0 d0 f0 l0]
  obtain m where run: "applyIbConfig (Some DefaultIbConfig) ?rs = Inr m"
    and at0: "m (''foo'' @ ''-port'' @ []) =
             Some \<lparr>Env = [''IB_DEVICE_'' @ Itoa (int 0) @ ''='' @ ''foo'' @ ''-port'' @ [],
                          ''IB_DEVICE_'' @ Itoa (int 0) @ ''_IBDEV='' @ ''foo'',
                          ''IB_DEVICE_'' @ Itoa (int 0) @ ''_PORT='' @ []] @ spec_config_env DefaultIbConfig 0,
                   Hooks = [spec_hook ''foo'']\<rparr>"
    by (elim exE conjE)
  from applyIbConfig_suffix_unchecked[OF default_config_valid i1 d1 f1 l1]
  obtain m' where run': "applyIbConfig (Some DefaultIbConfig) ?rs = Inr m'"
    and at1': "m' (''a'' @ ''-port'' @ ''xyz'') =
             Some \<lparr>Env = [''IB_DEVICE_'' @ Itoa (int (Suc 0)) @ ''='' @ ''a'' @ ''-port'' @ ''xyz'',
                          ''IB_DEVICE_'' @ Itoa (int (Suc 0)) @ ''_IBDEV='' @ ''a'',
                          ''IB_DEVICE_'' @ Itoa (int (Suc 0)) @ ''_PORT='' @ ''xyz'']
                         @ spec_config_env DefaultIbConfig (Suc 0),
                   Hooks = [spec_hook ''a'']\<rparr>"
    by (elim exE conjE)
  from run run' have same: "m' = m" by simp
  have c0: "m ''foo-port'' =
          Some \<lparr>Env = [''IB_DEVICE_0=foo-port'', ''IB_DEVICE_0_IBDEV=foo'', ''IB_DEVICE_0_PORT=''],
                Hooks = [spec_hook ''foo'']\<rparr>"
    using at0 by (simp add: default_config_env fmt_eval)
  have c1: "m ''a-portxyz'' =
          Some \<lparr>Env = [''IB_DEVICE_1=a-portxyz'', ''IB_DEVICE_1_IBDEV=a'', ''IB_DEVICE_1_PORT=xyz''],
                Hooks = [spec_hook ''a'']\<rparr>"
    using at1' same by (simp add: default_config_env fmt_eval)
  from run c0 c1 show ?thesis by (intro exI conjI)
qed

section \<open>The hook helper\<close>















end
